theory Spec2Isabelle
  imports Complex_Main "HOL-Library.AList"
begin

section \<open>The entity store (db.js)\<close>

text \<open>
  The store is the object \<open>DB = { currentRegion, regions: { name: Region } }\<close>. JavaScript
  objects used as dictionaries are association lists here, in insertion order; a lookup is
  \<open>map_of\<close>, an assignment \<open>obj[k] = v\<close> is \<open>AList.update\<close> (in place when the key exists, at
  the end otherwise), \<open>delete obj[k]\<close> is \<open>AList.delete\<close>, and the mutation of the object stored
  under a key is \<open>AList.map_entry\<close>. Values read from the page (input fields, attributes,
  the answer to a \<open>confirm\<close> dialog, the clock) are parameters of the operations.

  Litre quantities are JavaScript numbers, that is doubles. The model has whole numbers of
  litres, as integers: a whole number of magnitude below \<open>2 ^ 53\<close> is a double, and the sum
  or difference of two of them that is again of that magnitude is computed without rounding,
  so that the integers of the model are the numbers of the code as long as they stay in that
  range (\<open>safeInteger\<close> below). Fractions of a litre, which the code rounds at every sum,
  are not in the model; \<open>NaN\<close> and \<open>Infinity\<close> are \<open>None\<close> where the code tests for them.

  A key is a string other than the name of a member of \<open>Object.prototype\<close> (\<open>inherited\<close>
  below): for such a name, \<open>obj[k]\<close> finds the inherited member where the dictionary has no
  entry of its own, and \<open>map_of\<close> finds nothing.
\<close>

datatype status = OPEN | CLOSED

record order =
  orderNo :: string
  vehiclePlate :: string
  totalLiters :: int
  suppliedTotal :: int
  allocations :: "(string \<times> int) list"
  status :: status
  createdDate :: string
  overageComments :: "(string \<times> string) list"

text \<open>
  A daily entry is either \<open>{ orderNo, technician, supplied }\<close> or
  \<open>{ technician, supplied, comment, unallocated: true }\<close>; an absent field is \<open>None\<close>
  (\<open>False\<close> for the flag).
\<close>

record entry =
  entryOrderNo :: "string option"
  technician :: string
  supplied :: int
  comment :: "string option"
  unallocated :: bool

record region =
  technicians :: "string list"
  technicianPlates :: "(string \<times> string) list"
  orders :: "(string \<times> order) list"
  dailyLog :: "(string \<times> entry list) list"

record DB =
  currentRegion :: string
  regions :: "(string \<times> region) list"

text \<open>What an operation reports: it ran, it returned silently, it showed an alert, or it threw.\<close>

datatype alert =
  InvalidOrDuplicateOrderNo
  | FillAllFields
  | AlreadyAllocated
  | ExceedsOrderTotal
  | InvalidAmount
  | SelectDate
  | NoEntries
  | InvalidLitres
  | CommentRequired
  | EnterReason
  | EnterOrderNo
  | OrderExists
  | LastRegion
  | TechnicianExists
  | EnterName
  | RegionExists
  | InvalidFormat
  | RestoreFailed

datatype outcome = Done | Returned | Alerted alert | Threw | Saved nat nat

text \<open>The state of the page that the operations read: the filters of the orders view, whether
  the orders page is the active one, and the clock (whole days elapsed since a date).\<close>

record view =
  orderFilterFrom :: string
  orderFilterTo :: string
  orderFilterTech :: string
  ordersPageActive :: bool
  daysSince :: "string \<Rightarrow> int"

subsection \<open>Strings\<close>

text \<open>\<open>String.prototype.trim\<close> on ASCII, and the comparison \<open><\<close> of two strings by code unit.\<close>

definition isSpace :: "char \<Rightarrow> bool" where
  "isSpace c = (c \<in> set [CHR '' '', CHR 0x09, CHR 0x0A, CHR 0x0B, CHR 0x0C, CHR 0x0D])"

definition trim :: "string \<Rightarrow> string" where
  "trim s = rev (dropWhile isSpace (rev (dropWhile isSpace s)))"

fun str_less :: "string \<Rightarrow> string \<Rightarrow> bool" where
  "str_less [] [] = False"
| "str_less [] (y # ys) = True"
| "str_less (x # xs) [] = False"
| "str_less (x # xs) (y # ys) =
     ((of_char x :: nat) < of_char y \<or> (x = y \<and> str_less xs ys))"

definition str_le :: "string \<Rightarrow> string \<Rightarrow> bool" where
  "str_le a b = (\<not> str_less b a)"

subsection \<open>Reading the daily log\<close>

text \<open>\<open>Object.values(region.dailyLog).flat()\<close>.\<close>

definition allEntries :: "region \<Rightarrow> entry list" where
  "allEntries r = concat (map snd (dailyLog r))"

text \<open>\<open>.filter(e => e.orderNo === no).reduce((s, e) => s + e.supplied, 0)\<close>: the litres
  recorded against an order; with the technician test as well, the litres a technician
  has supplied on the order.\<close>

definition suppliedOn :: "string \<Rightarrow> region \<Rightarrow> int" where
  "suppliedOn no r =
     sum_list (map supplied (filter (\<lambda>e. entryOrderNo e = Some no) (allEntries r)))"

definition usedSoFar :: "string \<Rightarrow> string \<Rightarrow> region \<Rightarrow> int" where
  "usedSoFar no tech r =
     sum_list (map supplied
       (filter (\<lambda>e. entryOrderNo e = Some no \<and> technician e = tech) (allEntries r)))"

section \<open>Orders (orders.js)\<close>

subsection \<open>Rendering the order cards\<close>

record orderCard =
  cardOrderNo :: string
  cardBal :: int
  cardDaysOpen :: int
  cardStale :: bool
  cardAnyOver :: bool
  cardStatus :: status

text \<open>
  \<open>_buildOrderCard(o, region)\<close>: its first statement closes an order whose balance is used up,
  \<open>if (bal <= 0 && o.status !== 'CLOSED') o.status = 'CLOSED'\<close>; then the stale test
  \<open>o.status === 'OPEN' && daysOpen > 7 && pctSupplied < 0.5\<close> and the overage test are
  computed from the order as it is then. The result is the card and the order.
\<close>

definition buildOrderCard :: "view \<Rightarrow> order \<Rightarrow> region \<Rightarrow> orderCard \<times> order" where
  "buildOrderCard v ord r =
     (let bal = totalLiters ord - suppliedTotal ord;
          ord' = (if bal \<le> 0 \<and> status ord \<noteq> CLOSED then ord\<lparr>status := CLOSED\<rparr> else ord);
          daysOpen = (if createdDate ord' = [] then 0 else daysSince v (createdDate ord'));
          pctSupplied = (if totalLiters ord' > 0
                         then (of_int (suppliedTotal ord') / of_int (totalLiters ord') :: rat)
                         else 1);
          isStale = (status ord' = OPEN \<and> daysOpen > 7 \<and> pctSupplied < 1 / 2);
          anyOver = list_ex (\<lambda>(t, alloc). usedSoFar (orderNo ord') t r > alloc) (allocations ord')
      in (\<lparr>cardOrderNo = orderNo ord', cardBal = bal, cardDaysOpen = daysOpen,
            cardStale = isStale, cardAnyOver = anyOver, cardStatus = status ord'\<rparr>, ord'))"

text \<open>The filters of \<open>renderOrders\<close>: creation date from, creation date to, allocated technician.\<close>

definition shown :: "view \<Rightarrow> order \<Rightarrow> bool" where
  "shown v ord =
     ((orderFilterFrom v = [] \<or> str_le (orderFilterFrom v) (createdDate ord)) \<and>
      (orderFilterTo v = [] \<or> str_le (createdDate ord) (orderFilterTo v)) \<and>
      (orderFilterTech v = [] \<or> orderFilterTech v \<in> set (map fst (allocations ord))))"

text \<open>\<open>renderOrders()\<close> builds a card for every order of the region that passes the filters.\<close>

definition renderOrders :: "view \<Rightarrow> region \<Rightarrow> orderCard list \<times> region" where
  "renderOrders v r =
     (map (\<lambda>ord. fst (buildOrderCard v ord r)) (filter (shown v) (map snd (orders r))),
      r\<lparr>orders := map (\<lambda>(k, ord). (k, if shown v ord then snd (buildOrderCard v ord r) else ord))
                      (orders r)\<rparr>)"

definition rendered :: "view \<Rightarrow> region \<Rightarrow> region" where
  "rendered v r = snd (renderOrders v r)"

subsection \<open>Deleting an order\<close>

text \<open>\<open>deleteOrder(orderNo)\<close>, with the answer to the confirmation dialog.\<close>

definition deleteOrder :: "view \<Rightarrow> string \<Rightarrow> bool \<Rightarrow> region \<Rightarrow> outcome \<times> region" where
  "deleteOrder v no confirm r =
     (case map_of (orders r) no of
        None \<Rightarrow> (Returned, r)
      | Some ord \<Rightarrow>
          if \<not> confirm then (Returned, r)
          else (Done, rendered v
                 (r\<lparr>orders := AList.delete no (orders r),
                    dailyLog := map (\<lambda>(date, es).
                        (date, filter (\<lambda>e. entryOrderNo e \<noteq> Some no) es)) (dailyLog r)\<rparr>)))"

subsection \<open>Creating, allocating, editing, cloning\<close>

text \<open>\<open>createOrder()\<close>: the order number, the plate, \<open>+totalLiters.value\<close>, the date field and
  today's date. Nothing checks the litres.\<close>

definition createOrder ::
  "view \<Rightarrow> string \<Rightarrow> string \<Rightarrow> int \<Rightarrow> string \<Rightarrow> string \<Rightarrow> region \<Rightarrow> outcome \<times> region" where
  "createOrder v noField plateField litres dateField today r =
     (let no = trim noField in
      if no = [] \<or> map_of (orders r) no \<noteq> None then (Alerted InvalidOrDuplicateOrderNo, r)
      else
        let orderDate = (if dateField = [] then today else dateField);
            new = \<lparr>orderNo = no, vehiclePlate = trim plateField, totalLiters = litres,
                   suppliedTotal = 0, allocations = [], status = OPEN,
                   createdDate = orderDate, overageComments = []\<rparr>
        in (Done, rendered v (r\<lparr>orders := AList.update no new (orders r)\<rparr>)))"

text \<open>\<open>Object.values(o.allocations).reduce((a, b) => a + b, 0)\<close>.\<close>

definition allocated :: "order \<Rightarrow> int" where
  "allocated ord = sum_list (map snd (allocations ord))"

text \<open>\<open>allocateFuel()\<close>: the selected order, the selected technician and \<open>+allocAmount.value\<close>.
  The test for an existing allocation is \<open>if (o.allocations[t])\<close>, the truth value of the
  stored number.\<close>

definition allocateFuel :: "string \<Rightarrow> string \<Rightarrow> int \<Rightarrow> region \<Rightarrow> outcome \<times> region" where
  "allocateFuel orderKey t amt r =
     (case map_of (orders r) orderKey of
        None \<Rightarrow> (Alerted FillAllFields, r)
      | Some ord \<Rightarrow>
          if t = [] \<or> amt = 0 then (Alerted FillAllFields, r)
          else if (case map_of (allocations ord) t of None \<Rightarrow> False | Some a \<Rightarrow> a \<noteq> 0)
          then (Alerted AlreadyAllocated, r)
          else if allocated ord + amt > totalLiters ord then (Alerted ExceedsOrderTotal, r)
          else (Done, r\<lparr>orders := AList.map_entry orderKey
                  (\<lambda>x. x\<lparr>allocations := AList.update t amt (allocations x)\<rparr>) (orders r)\<rparr>))"

text \<open>\<open>saveAllocEdit(orderNo, tech)\<close>; \<open>parseFloat\<close> of the field is \<open>None\<close> when it is NaN.\<close>

definition saveAllocEdit ::
  "view \<Rightarrow> string \<Rightarrow> string \<Rightarrow> int option \<Rightarrow> region \<Rightarrow> outcome \<times> region" where
  "saveAllocEdit v no tech newAmtField r =
     (case map_of (orders r) no of
        None \<Rightarrow> (Returned, r)
      | Some ord \<Rightarrow>
          (case newAmtField of
             None \<Rightarrow> (Alerted InvalidAmount, r)
           | Some newAmt \<Rightarrow>
               if newAmt < 0 then (Alerted InvalidAmount, r)
               else
                 let otherAllocs =
                       sum_list (map snd (filter (\<lambda>(t, a). t \<noteq> tech) (allocations ord)))
                 in if otherAllocs + newAmt > totalLiters ord then (Alerted ExceedsOrderTotal, r)
                    else (Done, rendered v (r\<lparr>orders := AList.map_entry no
                            (\<lambda>x. x\<lparr>allocations := AList.update tech newAmt (allocations x)\<rparr>)
                            (orders r)\<rparr>))))"

text \<open>\<open>saveOrderDate(orderNo)\<close>.\<close>

definition saveOrderDate :: "view \<Rightarrow> string \<Rightarrow> string \<Rightarrow> region \<Rightarrow> outcome \<times> region" where
  "saveOrderDate v no dateField r =
     (case map_of (orders r) no of
        None \<Rightarrow> (Returned, r)
      | Some ord \<Rightarrow>
          let newDate = trim dateField in
          if newDate = [] then (Alerted SelectDate, r)
          else (Done, rendered v (r\<lparr>orders := AList.map_entry no
                  (\<lambda>x. x\<lparr>createdDate := newDate\<rparr>) (orders r)\<rparr>)))"

text \<open>\<open>saveOverageComment()\<close>; the first argument is \<open>_overCtx\<close>. An order that is gone makes
  \<open>o.overageComments\<close> throw.\<close>

definition saveOverageComment ::
  "view \<Rightarrow> (string \<times> string) option \<Rightarrow> string \<Rightarrow> region \<Rightarrow> outcome \<times> region" where
  "saveOverageComment v ctx commentField r =
     (case ctx of
        None \<Rightarrow> (Returned, r)
      | Some (no, tech) \<Rightarrow>
          let c = trim commentField in
          if c = [] then (Alerted EnterReason, r)
          else (case map_of (orders r) no of
                  None \<Rightarrow> (Threw, r)
                | Some ord \<Rightarrow>
                    (Done, rendered v (r\<lparr>orders := AList.map_entry no
                       (\<lambda>x. x\<lparr>overageComments := AList.update tech c (overageComments x)\<rparr>)
                       (orders r)\<rparr>))))"

text \<open>\<open>confirmClone()\<close>; the first argument is \<open>_cloneSourceOrderNo\<close>.\<close>

definition confirmClone ::
  "view \<Rightarrow> string option \<Rightarrow> string \<Rightarrow> string \<Rightarrow> string \<Rightarrow> region \<Rightarrow> outcome \<times> region" where
  "confirmClone v source newNoField dateField today r =
     (case (case source of None \<Rightarrow> None | Some s \<Rightarrow> map_of (orders r) s) of
        None \<Rightarrow> (Returned, r)
      | Some src \<Rightarrow>
          let newNo = trim newNoField in
          if newNo = [] then (Alerted EnterOrderNo, r)
          else if map_of (orders r) newNo \<noteq> None then (Alerted OrderExists, r)
          else
            let newDate = (if dateField = [] then today else dateField);
                new = \<lparr>orderNo = newNo, vehiclePlate = vehiclePlate src,
                       totalLiters = totalLiters src, suppliedTotal = 0,
                       allocations = allocations src, status = OPEN,
                       createdDate = newDate, overageComments = []\<rparr>
            in (Done, rendered v (r\<lparr>orders := AList.update newNo new (orders r)\<rparr>)))"

section \<open>The daily supply log (daily.js)\<close>

subsection \<open>Deleting a daily entry\<close>

text \<open>The order an entry is booked on: \<open>!entry.unallocated && entry.orderNo\<close>.\<close>

definition bookedOrder :: "entry \<Rightarrow> string option" where
  "bookedOrder e =
     (case entryOrderNo e of
        None \<Rightarrow> None
      | Some no \<Rightarrow> if \<not> unallocated e \<and> no \<noteq> [] then Some no else None)"

text \<open>\<open>entries.splice(idx, 1)\<close>.\<close>

definition splice1 :: "nat \<Rightarrow> 'a list \<Rightarrow> 'a list" where
  "splice1 idx xs = take idx xs @ drop (Suc idx) xs"

definition unsupply :: "int \<Rightarrow> order \<Rightarrow> order" where
  "unsupply amount ord =
     (let ord1 = ord\<lparr>suppliedTotal := max 0 (suppliedTotal ord - amount)\<rparr>
      in if status ord1 = CLOSED \<and> suppliedTotal ord1 < totalLiters ord1
         then ord1\<lparr>status := OPEN\<rparr> else ord1)"

text \<open>The writes of \<open>deleteDailyEntry\<close> once the entry is found and the deletion confirmed:
  the order gives the litres back, the entry is spliced out, and the date goes when its list
  is empty.\<close>

definition applyDelete :: "string \<Rightarrow> nat \<Rightarrow> entry list \<Rightarrow> region \<Rightarrow> region" where
  "applyDelete date idx entries r =
     (let e = entries ! idx;
          r1 = (case bookedOrder e of
                  None \<Rightarrow> r
                | Some no \<Rightarrow>
                    r\<lparr>orders := AList.map_entry no (unsupply (supplied e)) (orders r)\<rparr>);
          entries' = splice1 idx entries
      in if entries' = []
         then r1\<lparr>dailyLog := AList.delete date (dailyLog r1)\<rparr>
         else r1\<lparr>dailyLog := AList.update date entries' (dailyLog r1)\<rparr>)"

definition deleteDailyEntry ::
  "view \<Rightarrow> string \<Rightarrow> nat \<Rightarrow> bool \<Rightarrow> region \<Rightarrow> outcome \<times> region" where
  "deleteDailyEntry v date idx confirm r =
     (case map_of (dailyLog r) date of
        None \<Rightarrow> (Returned, r)
      | Some entries \<Rightarrow>
          if \<not> idx < length entries then (Returned, r)
          else if \<not> confirm then (Returned, r)
          else
            let r2 = applyDelete date idx entries r
            in (Done, if ordersPageActive v then rendered v r2 else r2))"

subsection \<open>The entry cards of the daily form\<close>

text \<open>
  What \<open>saveDaily\<close> reads from an entry card: the selected technician, \<open>+value || 0\<close> of the
  litres field, the \<open>max\<close> attribute of that field (\<open>None\<close> when empty or removed), the
  \<open>data-order\<close> attribute, the \<open>data-unallocated\<close> attribute and the comment field (\<open>None\<close>
  when the card has none).
\<close>

record card =
  techSel :: string
  suppInput :: int
  suppMax :: "int option"
  dataOrder :: "string option"
  dataUnallocated :: bool
  commentInput :: "string option"

text \<open>\<open>updateOrderDetails(card, order, tech, region)\<close> computes the cap of the litres field,
  \<open>Math.min(left, orderBal)\<close>, and ties the card to the order.\<close>

definition updateOrderDetails :: "card \<Rightarrow> order \<Rightarrow> string \<Rightarrow> region \<Rightarrow> card" where
  "updateOrderDetails c ord tech r =
     (let alloc = (case map_of (allocations ord) tech of None \<Rightarrow> 0 | Some a \<Rightarrow> a);
          used = usedSoFar (orderNo ord) tech r;
          left = max 0 (alloc - used);
          orderBal = totalLiters ord - suppliedTotal ord
      in c\<lparr>suppMax := Some (min left orderBal), dataOrder := Some (orderNo ord)\<rparr>)"

text \<open>\<open>techSelected(sel)\<close>, after the technician of the card was chosen.\<close>

definition assignedOrders :: "string \<Rightarrow> region \<Rightarrow> order list" where
  "assignedOrders tech r =
     filter (\<lambda>ord. status ord = OPEN \<and> tech \<in> set (map fst (allocations ord)))
       (map snd (orders r))"

definition techSelected :: "card \<Rightarrow> region \<Rightarrow> card" where
  "techSelected c r =
     (let tech = techSel c in
      if tech = [] then
        c\<lparr>suppMax := None, suppInput := 0, commentInput := None,
          dataOrder := None, dataUnallocated := False\<rparr>
      else
        (case assignedOrders tech r of
           [] \<Rightarrow> c\<lparr>dataUnallocated := True, dataOrder := None, suppMax := None,
                   commentInput := (case commentInput c of None \<Rightarrow> Some [] | Some x \<Rightarrow> Some x)\<rparr>
         | [ord] \<Rightarrow> updateOrderDetails (c\<lparr>dataUnallocated := False\<rparr>) ord tech r
         | _ \<Rightarrow> c\<lparr>dataUnallocated := False\<rparr>))"

text \<open>\<open>orderDropdownChanged(selectEl)\<close>, with the order chosen in the dropdown.\<close>

definition orderDropdownChanged :: "card \<Rightarrow> string \<Rightarrow> region \<Rightarrow> card" where
  "orderDropdownChanged c choice r =
     (if choice = [] then c\<lparr>suppMax := None, dataOrder := None\<rparr>
      else (case map_of (orders r) choice of
              None \<Rightarrow> c
            | Some ord \<Rightarrow> updateOrderDetails c ord (techSel c) r))"

subsection \<open>Saving a daily batch\<close>

text \<open>The body of \<open>cards.forEach\<close> in \<open>saveDaily\<close>, on the region and the two counters.
  \<open>+max || Infinity\<close> is no cap when the attribute is empty and when it is zero.\<close>

definition maxAllowed :: "card \<Rightarrow> int option" where
  "maxAllowed c = (case suppMax c of None \<Rightarrow> None | Some m \<Rightarrow> if m = 0 then None else Some m)"

definition actualAmount :: "card \<Rightarrow> int" where
  "actualAmount c = (case maxAllowed c of None \<Rightarrow> suppInput c | Some m \<Rightarrow> min (suppInput c) m)"

definition pushEntry :: "string \<Rightarrow> entry \<Rightarrow> region \<Rightarrow> region" where
  "pushEntry d e r = r\<lparr>dailyLog := AList.map_entry d (\<lambda>es. es @ [e]) (dailyLog r)\<rparr>"

definition saveCard :: "string \<Rightarrow> region \<times> nat \<times> nat \<Rightarrow> card \<Rightarrow> region \<times> nat \<times> nat" where
  "saveCard d acc c =
     (case acc of (r, saved, skipped) \<Rightarrow>
        if techSel c = [] \<or> suppInput c \<le> 0 then (r, saved, skipped)
        else if dataUnallocated c then
          (let cmt = (case commentInput c of None \<Rightarrow> [] | Some x \<Rightarrow> trim x) in
           if cmt = [] then (r, saved, skipped + 1)
           else (pushEntry d \<lparr>entryOrderNo = None, technician = techSel c,
                   supplied = suppInput c, comment = Some cmt, unallocated = True\<rparr> r,
                 saved + 1, skipped))
        else
          (case dataOrder c of
             None \<Rightarrow> (r, saved, skipped)
           | Some no \<Rightarrow>
               if no = [] then (r, saved, skipped)
               else (case map_of (orders r) no of
                       None \<Rightarrow> (r, saved, skipped)
                     | Some ord \<Rightarrow>
                         if status ord = CLOSED then (r, saved, skipped)
                         else
                           let actual = actualAmount c;
                               r1 = r\<lparr>orders := AList.map_entry no
                                      (\<lambda>x. x\<lparr>suppliedTotal := suppliedTotal x + actual\<rparr>)
                                      (orders r)\<rparr>
                           in (pushEntry d \<lparr>entryOrderNo = Some no, technician = techSel c,
                                 supplied = actual, comment = None, unallocated = False\<rparr> r1,
                               saved + 1, skipped))))"

text \<open>The loop after the cards: \<open>if (o.suppliedTotal >= o.totalLiters) o.status = 'CLOSED'\<close>.\<close>

definition closeSupplied :: "region \<Rightarrow> region" where
  "closeSupplied r =
     r\<lparr>orders := map (\<lambda>(k, ord). (k, if suppliedTotal ord \<ge> totalLiters ord
                                          then ord\<lparr>status := CLOSED\<rparr> else ord)) (orders r)\<rparr>"

text \<open>\<open>saveDaily()\<close>: the date field and the cards of the form. The list of the date is created
  before the cards are counted.\<close>

definition saveDaily :: "view \<Rightarrow> string \<Rightarrow> card list \<Rightarrow> region \<Rightarrow> outcome \<times> region" where
  "saveDaily v d cards r =
     (if d = [] then (Alerted SelectDate, r)
      else
        let r0 = (if map_of (dailyLog r) d = None
                  then r\<lparr>dailyLog := AList.update d [] (dailyLog r)\<rparr> else r)
        in if cards = [] then (Alerted NoEntries, r0)
           else (case foldl (saveCard d) (r0, 0, 0) cards of
                   (r1, saved, skipped) \<Rightarrow>
                     (Saved saved skipped, rendered v (closeSupplied r1))))"

subsection \<open>Editing a daily entry\<close>

definition resupply :: "int \<Rightarrow> order \<Rightarrow> order" where
  "resupply diff ord =
     (let ord1 = ord\<lparr>suppliedTotal := max 0 (suppliedTotal ord + diff)\<rparr>;
          ord2 = (if status ord1 = CLOSED \<and> suppliedTotal ord1 < totalLiters ord1
                  then ord1\<lparr>status := OPEN\<rparr> else ord1)
      in if suppliedTotal ord2 \<ge> totalLiters ord2 then ord2\<lparr>status := CLOSED\<rparr> else ord2)"

text \<open>The writes of \<open>saveEditEntry\<close> once the entry is found and the new values are accepted:
  \<open>entries[idx].supplied = newSupply; if (entry.unallocated) entries[idx].comment = newComment\<close>
  after the order took the difference.\<close>

definition editedEntry :: "entry \<Rightarrow> int \<Rightarrow> string \<Rightarrow> entry" where
  "editedEntry e newSupply newComment =
     (if unallocated e then e\<lparr>supplied := newSupply, comment := Some newComment\<rparr>
      else e\<lparr>supplied := newSupply\<rparr>)"

definition applyEdit ::
  "string \<Rightarrow> nat \<Rightarrow> entry list \<Rightarrow> int \<Rightarrow> string \<Rightarrow> region \<Rightarrow> region" where
  "applyEdit date idx entries newSupply newComment r =
     (let e = entries ! idx;
          diff = newSupply - supplied e;
          r1 = (case bookedOrder e of
                  None \<Rightarrow> r
                | Some no \<Rightarrow>
                    r\<lparr>orders := AList.map_entry no (resupply diff) (orders r)\<rparr>)
      in r1\<lparr>dailyLog := AList.update date
              (entries[idx := editedEntry e newSupply newComment]) (dailyLog r1)\<rparr>)"

text \<open>\<open>saveEditEntry()\<close>; the second argument is \<open>_editCtx\<close>, then \<open>+editSupplied.value\<close> and
  the comment field.\<close>

definition saveEditEntry ::
  "view \<Rightarrow> (string \<times> nat) option \<Rightarrow> int \<Rightarrow> string \<Rightarrow> region \<Rightarrow> outcome \<times> region" where
  "saveEditEntry v ctx newSupply commentField r =
     (case ctx of
        None \<Rightarrow> (Returned, r)
      | Some (date, idx) \<Rightarrow>
          (case map_of (dailyLog r) date of
             None \<Rightarrow> (Returned, r)
           | Some entries \<Rightarrow>
               if \<not> idx < length entries then (Returned, r)
               else
                 let e = entries ! idx; newComment = trim commentField in
                 if newSupply \<le> 0 then (Alerted InvalidLitres, r)
                 else if unallocated e \<and> newComment = [] then (Alerted CommentRequired, r)
                 else
                   let r2 = applyEdit date idx entries newSupply newComment r
                   in (Done, if ordersPageActive v then rendered v r2 else r2)))"

section \<open>Regions and technicians (regions.js)\<close>

text \<open>An operation on \<open>DB.regions[DB.currentRegion]\<close>: the access throws when the current
  region does not exist, and the store is then as it was.\<close>

definition onCurrent :: "(region \<Rightarrow> outcome \<times> region) \<Rightarrow> DB \<Rightarrow> outcome \<times> DB" where
  "onCurrent f db =
     (case map_of (regions db) (currentRegion db) of
        None \<Rightarrow> (Threw, db)
      | Some r \<Rightarrow>
          (case f r of (out, r') \<Rightarrow>
             (out, db\<lparr>regions := AList.update (currentRegion db) r' (regions db)\<rparr>)))"

definition changeRegion :: "string \<Rightarrow> DB \<Rightarrow> outcome \<times> DB" where
  "changeRegion selected db = (Done, db\<lparr>currentRegion := selected\<rparr>)"

definition addRegion :: "string \<Rightarrow> DB \<Rightarrow> outcome \<times> DB" where
  "addRegion nameField db =
     (let n = trim nameField in
      if n = [] \<or> map_of (regions db) n \<noteq> None then (Returned, db)
      else (Done, db\<lparr>regions := AList.update n
              \<lparr>technicians = [], technicianPlates = [], orders = [], dailyLog = []\<rparr>
              (regions db)\<rparr>))"

text \<open>\<open>deleteRegion(rName)\<close>. \<open>Object.keys(DB.regions)[0]\<close> of an object without keys is
  \<open>undefined\<close>, which as a key reads \<open>''undefined''\<close>.\<close>

definition deleteRegion :: "string \<Rightarrow> bool \<Rightarrow> DB \<Rightarrow> outcome \<times> DB" where
  "deleteRegion rName confirm db =
     (if length (regions db) \<le> 1 then (Alerted LastRegion, db)
      else (case map_of (regions db) rName of
              None \<Rightarrow> (Threw, db)
            | Some r \<Rightarrow>
                if \<not> confirm then (Returned, db)
                else
                  let regs = AList.delete rName (regions db);
                      cur = (if currentRegion db = rName
                             then (case map fst regs of [] \<Rightarrow> ''undefined'' | k # _ \<Rightarrow> k)
                             else currentRegion db)
                  in (Done, db\<lparr>regions := regs, currentRegion := cur\<rparr>)))"

definition addTechnician :: "string \<Rightarrow> string \<Rightarrow> region \<Rightarrow> outcome \<times> region" where
  "addTechnician nameField plateField r =
     (let t = trim nameField; p = trim plateField in
      if t = [] \<or> p = [] then (Returned, r)
      else if t \<in> set (technicians r) then (Alerted TechnicianExists, r)
      else (Done, r\<lparr>technicians := technicians r @ [t],
                     technicianPlates := AList.update t p (technicianPlates r)\<rparr>))"

text \<open>\<open>deleteTech(techName)\<close> removes the technician's allocation from every order of the
  region and leaves the daily log alone.\<close>

definition deleteTech :: "string \<Rightarrow> bool \<Rightarrow> region \<Rightarrow> outcome \<times> region" where
  "deleteTech techName confirm r =
     (if \<not> confirm then (Returned, r)
      else (Done, r\<lparr>technicians := filter (\<lambda>t. t \<noteq> techName) (technicians r),
                     technicianPlates := AList.delete techName (technicianPlates r),
                     orders := map (\<lambda>(k, ord).
                         (k, ord\<lparr>allocations := AList.delete techName (allocations ord)\<rparr>))
                       (orders r)\<rparr>))"

subsection \<open>Renaming\<close>

text \<open>\<open>_renameRegion(oldName, newName)\<close>. The old name comes from the region list; for a name
  that is not there the page would store an undefined region, which this store cannot hold,
  and the model reports the throw of the render that follows.\<close>

definition renameRegion :: "string \<Rightarrow> string \<Rightarrow> DB \<Rightarrow> outcome \<times> DB" where
  "renameRegion oldName newName db =
     (if newName = oldName then (Returned, db)
      else if map_of (regions db) newName \<noteq> None then (Alerted RegionExists, db)
      else (case map_of (regions db) oldName of
              None \<Rightarrow> (Threw, db)
            | Some r \<Rightarrow>
                (Done, db\<lparr>regions := AList.delete oldName (AList.update newName r (regions db)),
                          currentRegion := (if currentRegion db = oldName then newName
                                            else currentRegion db)\<rparr>)))"

text \<open>Moving the value of a key to another key: \<open>if (m[old] !== undefined) { m[new] = m[old];
  delete m[old] }\<close>. For an old name that is inherited and not a key of the dictionary the code
  stores the inherited member, a function, under the new key; no dictionary of the model holds
  such a value, and the model leaves the dictionary as it is.\<close>

definition moveKey :: "string \<Rightarrow> string \<Rightarrow> (string \<times> 'a) list \<Rightarrow> (string \<times> 'a) list" where
  "moveKey oldName newName m =
     (case map_of m oldName of
        None \<Rightarrow> m
      | Some x \<Rightarrow> AList.delete oldName (AList.update newName x m))"

text \<open>\<open>r.technicians[r.technicians.indexOf(oldName)] = newName\<close>.\<close>

fun replaceFirst :: "string \<Rightarrow> string \<Rightarrow> string list \<Rightarrow> string list" where
  "replaceFirst oldName newName [] = []"
| "replaceFirst oldName newName (t # ts) =
     (if t = oldName then newName # ts else t # replaceFirst oldName newName ts)"

text \<open>The body of the loop of \<open>_renameTech\<close> over the regions: a region whose technician list
  does not have the old name is skipped.\<close>

definition renameTechIn :: "string \<Rightarrow> string \<Rightarrow> region \<Rightarrow> region" where
  "renameTechIn oldName newName r =
     (if oldName \<notin> set (technicians r) then r
      else
        r\<lparr>technicians := replaceFirst oldName newName (technicians r),
          technicianPlates := moveKey oldName newName (technicianPlates r),
          orders := map (\<lambda>(k, ord).
              (k, ord\<lparr>allocations := moveKey oldName newName (allocations ord),
                      overageComments := moveKey oldName newName (overageComments ord)\<rparr>))
            (orders r),
          dailyLog := map (\<lambda>(date, es).
              (date, map (\<lambda>e. if technician e = oldName then e\<lparr>technician := newName\<rparr> else e) es))
            (dailyLog r)\<rparr>)"

definition renameTech :: "string \<Rightarrow> string \<Rightarrow> DB \<Rightarrow> outcome \<times> DB" where
  "renameTech oldName newName db =
     (if newName = oldName then (Returned, db)
      else (Done, db\<lparr>regions := map (\<lambda>(n, r). (n, renameTechIn oldName newName r))
                                    (regions db)\<rparr>))"

text \<open>\<open>confirmRename()\<close>; the first argument is \<open>_renameCtx\<close>: a region (\<open>True\<close>) or a
  technician, and its name.\<close>

definition confirmRename :: "(bool \<times> string) option \<Rightarrow> string \<Rightarrow> DB \<Rightarrow> outcome \<times> DB" where
  "confirmRename ctx nameField db =
     (case ctx of
        None \<Rightarrow> (Returned, db)
      | Some (isRegion, name) \<Rightarrow>
          let newName = trim nameField in
          if newName = [] then (Alerted EnterName, db)
          else if isRegion then renameRegion name newName db
          else renameTech name newName db)"

section \<open>Backup and restore (reports.js)\<close>

text \<open>
  The parsed backup document, as far as \<open>restoreData\<close> looks at it: its \<open>regions\<close> and its
  \<open>currentRegion\<close>, each \<open>None\<close> when the document does not have it. Any object is true in
  JavaScript, the empty one too; of the strings only the empty one is false.
\<close>

record backup =
  docRegions :: "(string \<times> region) list option"
  docCurrentRegion :: "string option"

text \<open>\<open>restoreData(event)\<close>: the parsed file (\<open>None\<close> when \<open>JSON.parse\<close> throws) and the answer
  to the confirmation. \<open>replaceDB\<close> installs the document; the render that follows throws
  when the current region of the document is not among its regions, and the \<open>catch\<close> then
  reports a failure with the document already installed.\<close>

definition restoreData :: "backup option \<Rightarrow> bool \<Rightarrow> DB \<Rightarrow> outcome \<times> DB" where
  "restoreData parsed confirm db =
     (case parsed of
        None \<Rightarrow> (Alerted RestoreFailed, db)
      | Some doc \<Rightarrow>
          (case (docRegions doc, docCurrentRegion doc) of
             (Some regs, Some cur) \<Rightarrow>
               if cur = [] then (Alerted InvalidFormat, db)
               else if \<not> confirm then (Returned, db)
               else
                 let db' = \<lparr>currentRegion = cur, regions = regs\<rparr>
                 in (if map_of regs cur = None then Alerted RestoreFailed else Done, db')
           | _ \<Rightarrow> (Alerted InvalidFormat, db)))"


section \<open>Reports (leaderboard.js, reports.js)\<close>

text \<open>\<open>Array.prototype.sort\<close> is stable; \<open>inFront a b\<close> says that \<open>a\<close> may stay in front of
  \<open>b\<close> (the comparator is not positive).\<close>

fun insertBy :: "('a \<Rightarrow> 'a \<Rightarrow> bool) \<Rightarrow> 'a \<Rightarrow> 'a list \<Rightarrow> 'a list" where
  "insertBy inFront x [] = [x]"
| "insertBy inFront x (y # ys) =
     (if inFront x y then x # y # ys else y # insertBy inFront x ys)"

definition sortBy :: "('a \<Rightarrow> 'a \<Rightarrow> bool) \<Rightarrow> 'a list \<Rightarrow> 'a list" where
  "sortBy inFront xs = foldr (insertBy inFront) xs []"

text \<open>\<open>renderLeaderboard()\<close>: the region filter and the cut-off date (\<open>None\<close> without a day
  filter). A row is the technician, the litres and the first region seen.\<close>

definition addTotal ::
  "string \<Rightarrow> (string \<times> int \<times> string) list \<Rightarrow> entry \<Rightarrow> (string \<times> int \<times> string) list" where
  "addTotal rName totals e =
     AList.map_entry (technician e) (\<lambda>(l, rn). (l + supplied e, rn))
       (if map_of totals (technician e) = None
        then AList.update (technician e) (0, rName) totals else totals)"

definition leaderboardTotals ::
  "string \<Rightarrow> string option \<Rightarrow> DB \<Rightarrow> (string \<times> int \<times> string) list" where
  "leaderboardTotals regionFilter cutoff db =
     foldl (\<lambda>totals (rName, r).
        if regionFilter \<noteq> [] \<and> rName \<noteq> regionFilter then totals
        else foldl (\<lambda>totals (date, es).
               if (case cutoff of None \<Rightarrow> False | Some c \<Rightarrow> str_less date c) then totals
               else foldl (addTotal rName) totals es)
             totals (dailyLog r))
       [] (regions db)"

definition renderLeaderboard ::
  "string \<Rightarrow> string option \<Rightarrow> DB \<Rightarrow> (string \<times> int \<times> string) list" where
  "renderLeaderboard regionFilter cutoff db =
     sortBy (\<lambda>a b. fst (snd a) \<ge> fst (snd b)) (leaderboardTotals regionFilter cutoff db)"

text \<open>\<open>openTechHistory(techName)\<close>: the entries of the technician in all regions with their
  date and region, newest first, and the three totals.\<close>

definition techEntries :: "string \<Rightarrow> DB \<Rightarrow> (entry \<times> string \<times> string) list" where
  "techEntries techName db =
     sortBy (\<lambda>a b. str_le (fst (snd b)) (fst (snd a)))
       (concat (map (\<lambda>(rName, r).
          concat (map (\<lambda>(date, es).
            map (\<lambda>e. (e, date, rName)) (filter (\<lambda>e. technician e = techName) es))
          (dailyLog r)))
        (regions db)))"

definition openTechHistory ::
  "string \<Rightarrow> DB \<Rightarrow> (entry \<times> string \<times> string) list \<times> int \<times> nat \<times> nat" where
  "openTechHistory techName db =
     (let es = techEntries techName db in
      (es,
       sum_list (map (\<lambda>x. supplied (fst x)) es),
       length (remdups (map (\<lambda>x. fst (snd x)) es)),
       length (remdups (concat (map (\<lambda>x.
          case entryOrderNo (fst x) of None \<Rightarrow> [] | Some no \<Rightarrow> if no = [] then [] else [no]) es)))))"

text \<open>\<open>renderUnallocReport()\<close>: the unallocated entries of the region by date, newest first,
  and their sum.\<close>

definition renderUnallocReport :: "region \<Rightarrow> (string \<times> entry) list \<times> int" where
  "renderUnallocReport r =
     (let rows = sortBy (\<lambda>a b. str_le (fst b) (fst a))
                   (concat (map (\<lambda>(date, es). map (\<lambda>e. (date, e)) (filter unallocated es))
                      (dailyLog r)))
      in (rows, sum_list (map (\<lambda>x. supplied (snd x)) rows)))"

text \<open>The three sheets of \<open>exportOrders()\<close>, without their header rows.\<close>

definition ordersSheet ::
  "DB \<Rightarrow> (string \<times> string \<times> string \<times> int \<times> int \<times> int \<times> status) list" where
  "ordersSheet db =
     concat (map (\<lambda>(rName, r).
       map (\<lambda>ord. (rName, orderNo ord, vehiclePlate ord, totalLiters ord, suppliedTotal ord,
                    totalLiters ord - suppliedTotal ord, status ord))
         (map snd (orders r)))
     (regions db))"

definition unallocatedSheet :: "DB \<Rightarrow> (string \<times> string \<times> string \<times> int \<times> string) list" where
  "unallocatedSheet db =
     concat (map (\<lambda>(rName, r).
       concat (map (\<lambda>(date, es).
         map (\<lambda>e. (rName, date, technician e, supplied e,
                    (case comment e of None \<Rightarrow> [] | Some c \<Rightarrow> c)))
           (filter unallocated es))
       (dailyLog r)))
     (regions db))"

text \<open>The plate is \<open>None\<close> where the sheet shows a dash for an order that is gone.\<close>

definition supplySheet ::
  "DB \<Rightarrow> (string \<times> string \<times> string \<times> string option \<times> string \<times> int) list" where
  "supplySheet db =
     concat (map (\<lambda>(rName, r).
       concat (map (\<lambda>(date, es).
         concat (map (\<lambda>e.
           case bookedOrder e of
             None \<Rightarrow> []
           | Some no \<Rightarrow> [(rName, date, no, map_option vehiclePlate (map_of (orders r) no),
                          technician e, supplied e)]) es))
       (sortBy (\<lambda>a b. str_le (fst a) (fst b)) (dailyLog r))))
     (regions db))"

subsection \<open>The read operations as one function\<close>

datatype projection =
  Leaderboard string "string option"
  | TechHistory string
  | UnallocatedReport
  | ExportOrders
  | OrderCards

datatype report =
  LeaderboardRows "(string \<times> int \<times> string) list"
  | HistoryRows "(entry \<times> string \<times> string) list \<times> int \<times> nat \<times> nat"
  | UnallocatedRows "(string \<times> entry) list \<times> int"
  | Sheets "(string \<times> string \<times> string \<times> int \<times> int \<times> int \<times> status) list"
      "(string \<times> string \<times> string \<times> int \<times> string) list"
      "(string \<times> string \<times> string \<times> string option \<times> string \<times> int) list"
  | Cards "orderCard list"

text \<open>What a read operation shows (\<open>None\<close> when it throws for want of the current region) and
  the store it leaves. The order cards (\<open>renderOrders\<close>, where the stale test lives) are the
  one read operation that writes.\<close>

definition runProjection :: "view \<Rightarrow> projection \<Rightarrow> DB \<Rightarrow> report option \<times> DB" where
  "runProjection v p db =
     (case p of
        Leaderboard regionFilter cutoff \<Rightarrow>
          (Some (LeaderboardRows (renderLeaderboard regionFilter cutoff db)), db)
      | TechHistory techName \<Rightarrow> (Some (HistoryRows (openTechHistory techName db)), db)
      | UnallocatedReport \<Rightarrow>
          (map_option (\<lambda>r. UnallocatedRows (renderUnallocReport r))
             (map_of (regions db) (currentRegion db)), db)
      | ExportOrders \<Rightarrow>
          (Some (Sheets (ordersSheet db) (unallocatedSheet db) (supplySheet db)), db)
      | OrderCards \<Rightarrow>
          (case map_of (regions db) (currentRegion db) of
             None \<Rightarrow> (None, db)
           | Some r \<Rightarrow>
               (Some (Cards (fst (renderOrders v r))),
                db\<lparr>regions := AList.update (currentRegion db) (rendered v r) (regions db)\<rparr>)))"


section \<open>The operations as commands\<close>

text \<open>Every operation that writes the store, with what it reads from the page.\<close>

datatype command =
  CreateOrder string string int string string
  | AllocateFuel string string int
  | SaveAllocEdit string string "int option"
  | SaveOrderDate string string
  | SaveOverageComment "(string \<times> string) option" string
  | ConfirmClone "string option" string string string
  | DeleteOrder string bool
  | SaveDaily string "card list"
  | SaveEditEntry "(string \<times> nat) option" int string
  | DeleteDailyEntry string nat bool
  | ChangeRegion string
  | AddRegion string
  | DeleteRegion string bool
  | AddTechnician string string
  | DeleteTech string bool
  | ConfirmRename "(bool \<times> string) option" string
  | RestoreData "backup option" bool

fun exec :: "view \<Rightarrow> command \<Rightarrow> DB \<Rightarrow> outcome \<times> DB" where
  "exec v (CreateOrder no plate litres date today) db =
     onCurrent (createOrder v no plate litres date today) db"
| "exec v (AllocateFuel orderKey t amt) db = onCurrent (allocateFuel orderKey t amt) db"
| "exec v (SaveAllocEdit no tech amt) db = onCurrent (saveAllocEdit v no tech amt) db"
| "exec v (SaveOrderDate no date) db = onCurrent (saveOrderDate v no date) db"
| "exec v (SaveOverageComment ctx c) db = onCurrent (saveOverageComment v ctx c) db"
| "exec v (ConfirmClone source newNo date today) db =
     onCurrent (confirmClone v source newNo date today) db"
| "exec v (DeleteOrder no confirm) db = onCurrent (deleteOrder v no confirm) db"
| "exec v (SaveDaily d cards) db = onCurrent (saveDaily v d cards) db"
| "exec v (SaveEditEntry ctx newSupply c) db = onCurrent (saveEditEntry v ctx newSupply c) db"
| "exec v (DeleteDailyEntry date idx confirm) db =
     onCurrent (deleteDailyEntry v date idx confirm) db"
| "exec v (ChangeRegion selected) db = changeRegion selected db"
| "exec v (AddRegion name) db = addRegion name db"
| "exec v (DeleteRegion name confirm) db = deleteRegion name confirm db"
| "exec v (AddTechnician name plate) db = onCurrent (addTechnician name plate) db"
| "exec v (DeleteTech name confirm) db = onCurrent (deleteTech name confirm) db"
| "exec v (ConfirmRename ctx name) db = confirmRename ctx name db"
| "exec v (RestoreData parsed confirm) db = restoreData parsed confirm db"

section \<open>Example stores\<close>

text \<open>\<open>DB_DEFAULT\<close> of db.js.\<close>

definition DB_DEFAULT :: DB where
  "DB_DEFAULT = \<lparr>currentRegion = ''New CCS'',
                  regions = [(''New CCS'', \<lparr>technicians = [], technicianPlates = [],
                                             orders = [], dailyLog = []\<rparr>)]\<rparr>"

text \<open>An orders view without filters, on the orders page.\<close>

definition plainView :: view where
  "plainView = \<lparr>orderFilterFrom = [], orderFilterTo = [], orderFilterTech = [],
                ordersPageActive = True, daysSince = (\<lambda>d. 0)\<rparr>"

text \<open>The order \<open>O1\<close> of 100 litres with 60 allocated to technician \<open>A\<close>, who has supplied
  them on one day.\<close>

definition entryA :: entry where
  "entryA = \<lparr>entryOrderNo = Some ''O1'', technician = ''A'', supplied = 60,
             comment = None, unallocated = False\<rparr>"

definition orderO1 :: order where
  "orderO1 = \<lparr>orderNo = ''O1'', vehiclePlate = ''P1'', totalLiters = 100, suppliedTotal = 60,
              allocations = [(''A'', 60)], status = OPEN, createdDate = ''2025-01-01'',
              overageComments = []\<rparr>"

definition regionOne :: region where
  "regionOne = \<lparr>technicians = [''A''], technicianPlates = [(''A'', ''TP1'')],
                orders = [(''O1'', orderO1)], dailyLog = [(''2025-01-02'', [entryA])]\<rparr>"

definition storeOne :: DB where
  "storeOne = \<lparr>currentRegion = ''North'', regions = [(''North'', regionOne)]\<rparr>"

text \<open>A fresh entry card on which a technician has been chosen.\<close>

definition freshCard :: "string \<Rightarrow> card" where
  "freshCard tech = \<lparr>techSel = tech, suppInput = 0, suppMax = None, dataOrder = None,
                     dataUnallocated = False, commentInput = None\<rparr>"

text \<open>The card of technician \<open>A\<close> as the form fills it in on \<open>regionOne\<close>, with 70 litres
  typed in.\<close>

definition cardA70 :: card where
  "cardA70 = (techSelected (freshCard ''A'') regionOne)\<lparr>suppInput := 70\<rparr>"

section \<open>The cards of a batch by what becomes of them\<close>

text \<open>The trimmed comment of a card; a card that \<open>saveDaily\<close> counts as skipped (an unallocated
  card with a technician and a positive amount but no comment); a card that it saves, on a
  region; and the entry it appends for a saved card.\<close>

definition cardComment :: "card \<Rightarrow> string" where
  "cardComment c = (case commentInput c of None \<Rightarrow> [] | Some x \<Rightarrow> trim x)"

definition cardSkipped :: "card \<Rightarrow> bool" where
  "cardSkipped c =
     (techSel c \<noteq> [] \<and> 0 < suppInput c \<and> dataUnallocated c \<and> cardComment c = [])"

definition cardSaved :: "region \<Rightarrow> card \<Rightarrow> bool" where
  "cardSaved r c =
     (techSel c \<noteq> [] \<and> 0 < suppInput c \<and>
      (if dataUnallocated c then cardComment c \<noteq> []
       else (case dataOrder c of
               None \<Rightarrow> False
             | Some no \<Rightarrow> no \<noteq> [] \<and>
                 (case map_of (orders r) no of
                    None \<Rightarrow> False
                  | Some ord \<Rightarrow> status ord \<noteq> CLOSED))))"

definition cardEntry :: "card \<Rightarrow> entry" where
  "cardEntry c =
     (if dataUnallocated c
      then \<lparr>entryOrderNo = None, technician = techSel c, supplied = suppInput c,
            comment = Some (cardComment c), unallocated = True\<rparr>
      else \<lparr>entryOrderNo = dataOrder c, technician = techSel c, supplied = actualAmount c,
            comment = None, unallocated = False\<rparr>)"

text \<open>Two regions whose orders have the same keys and statuses.\<close>

definition sameStatus :: "region \<Rightarrow> region \<Rightarrow> bool" where
  "sameStatus r r' = (\<forall>no. map_option status (map_of (orders r') no) = map_option status (map_of (orders r) no))"

text \<open>The card of technician \<open>B\<close>, who has no allocation on \<open>regionOne\<close>, with 5 litres and
  no comment.\<close>

definition cardB5 :: card where
  "cardB5 = (techSelected (freshCard ''B'') regionOne)\<lparr>suppInput := 5\<rparr>"

text \<open>The restore command among the commands.\<close>

fun isRestore :: "command \<Rightarrow> bool" where
  "isRestore (RestoreData parsed confirm) = True"
| "isRestore _ = False"

text \<open>A backup document with the two keys and no region.\<close>

definition emptyBackup :: backup where
  "emptyBackup = \<lparr>docRegions = Some [], docCurrentRegion = Some ''North''\<rparr>"

text \<open>A region in which every order whose supplied total has reached its total litres is
  closed.\<close>

definition closedWhenSupplied :: "region \<Rightarrow> bool" where
  "closedWhenSupplied r =
     (\<forall>(k, ord) \<in> set (orders r). totalLiters ord \<le> suppliedTotal ord \<longrightarrow> status ord = CLOSED)"

text \<open>The store with the status of every order blanked out.\<close>

definition withoutStatus :: "DB \<Rightarrow> DB" where
  "withoutStatus db =
     db\<lparr>regions := map (\<lambda>(n, r).
        (n, r\<lparr>orders := map (\<lambda>(k, ord). (k, ord\<lparr>status := OPEN\<rparr>)) (orders r)\<rparr>))
       (regions db)\<rparr>"

text \<open>An orders view that only shows the orders created from June 2025 on, the order \<open>O2\<close>
  without litres, dated January, and the store after that order was created under that view
  from the default store.\<close>

definition laterView :: view where
  "laterView = plainView\<lparr>orderFilterFrom := ''2025-06-01''\<rparr>"

definition zeroOrder :: order where
  "zeroOrder = \<lparr>orderNo = ''O2'', vehiclePlate = ''P2'', totalLiters = 0, suppliedTotal = 0,
                allocations = [], status = OPEN, createdDate = ''2025-01-01'',
                overageComments = []\<rparr>"

definition storeZeroOrder :: DB where
  "storeZeroOrder =
     snd (exec laterView (CreateOrder ''O2'' ''P2'' 0 ''2025-01-01'' ''2025-01-01'') DB_DEFAULT)"

text \<open>A store of two regions: in \<open>North\<close> the technicians \<open>A\<close> and \<open>B\<close> both have an entry;
  in \<open>South\<close> an entry of 7 litres by \<open>A\<close> is left from the time before \<open>A\<close> was removed
  from the technician list there.\<close>

definition entryB :: entry where
  "entryB = \<lparr>entryOrderNo = None, technician = ''B'', supplied = 5,
             comment = Some ''top-up'', unallocated = True\<rparr>"

definition storeAB :: DB where
  "storeAB = \<lparr>currentRegion = ''North'',
     regions = [(''North'', regionOne\<lparr>technicians := [''A'', ''B''],
                   dailyLog := [(''2025-01-02'', [entryA, entryB])]\<rparr>),
                (''South'', \<lparr>technicians = [], technicianPlates = [], orders = [],
                   dailyLog = [(''2025-01-05'', [entryB\<lparr>technician := ''A'', supplied := 7\<rparr>])]\<rparr>)]\<rparr>"

text \<open>The litres a technician has supplied in a region.\<close>

definition litresIn :: "string \<Rightarrow> region \<Rightarrow> int" where
  "litresIn t r = sum_list (map supplied (filter (\<lambda>e. technician e = t) (allEntries r)))"

section \<open>The ledger invariants\<close>

text \<open>A property of every value of a dictionary, and of every region of the store.\<close>

definition allVals :: "('v \<Rightarrow> bool) \<Rightarrow> ('k \<times> 'v) list \<Rightarrow> bool" where
  "allVals Q xs = (\<forall>(k, v) \<in> set xs. Q v)"

definition everyRegion :: "(region \<Rightarrow> bool) \<Rightarrow> DB \<Rightarrow> bool" where
  "everyRegion P db = (\<forall>(n, r) \<in> set (regions db). P r)"

subsection \<open>Status and supplied total\<close>

text \<open>The status of an order says whether its supplied total has reached its total litres.\<close>

definition statusOk :: "order \<Rightarrow> bool" where
  "statusOk ord = ((status ord = CLOSED) = (totalLiters ord \<le> suppliedTotal ord))"

text \<open>A region whose orders have the right status, a supplied total that is not negative and
  positive total litres, and whose daily entries have positive amounts.\<close>

definition orderSound :: "order \<Rightarrow> bool" where
  "orderSound ord = (statusOk ord \<and> 0 \<le> suppliedTotal ord \<and> 0 < totalLiters ord)"

definition ledgerStatus :: "region \<Rightarrow> bool" where
  "ledgerStatus r =
     (allVals orderSound (orders r) \<and> allVals (list_all (\<lambda>e. 0 < supplied e)) (dailyLog r))"

text \<open>What the commands bring in from the page: the litres of a new order, and the cards of
  a daily batch; a card whose cap is not negative, as \<open>updateOrderDetails\<close> computes it for
  an open order of such a region.\<close>

fun createdLitres :: "command \<Rightarrow> int option" where
  "createdLitres (CreateOrder no plate litres date today) = Some litres"
| "createdLitres _ = None"

definition capOk :: "card \<Rightarrow> bool" where
  "capOk c = (case suppMax c of None \<Rightarrow> True | Some m \<Rightarrow> 0 \<le> m)"

fun batchCards :: "command \<Rightarrow> card list" where
  "batchCards (SaveDaily d cards) = cards"
| "batchCards _ = []"

text \<open>The status invariant of the store.\<close>

definition statusInv :: "DB \<Rightarrow> bool" where
  "statusInv db =
     (\<forall>(n, r) \<in> set (regions db). \<forall>(k, ord) \<in> set (orders r).
        (status ord = CLOSED) = (totalLiters ord \<le> suppliedTotal ord))"

text \<open>Between the cards of a batch a closed order has reached its litres, and an open one may
  have too.\<close>

definition midBatch :: "region \<Rightarrow> bool" where
  "midBatch r =
     (allVals (\<lambda>ord. (status ord = CLOSED \<longrightarrow> totalLiters ord \<le> suppliedTotal ord) \<and>
                      0 \<le> suppliedTotal ord \<and> 0 < totalLiters ord) (orders r) \<and>
      allVals (list_all (\<lambda>e. 0 < supplied e)) (dailyLog r))"

subsection \<open>Allocations and total litres\<close>

text \<open>An order whose allocations sum to at most its total litres, with one entry per
  technician and no negative amount.\<close>

definition allocSound :: "order \<Rightarrow> bool" where
  "allocSound ord =
     (allocated ord \<le> totalLiters ord \<and> distinct (map fst (allocations ord)) \<and>
      allVals (\<lambda>a. 0 \<le> a) (allocations ord))"

definition ledgerAlloc :: "region \<Rightarrow> bool" where
  "ledgerAlloc r = allVals allocSound (orders r)"

text \<open>The allocation invariant of the store.\<close>

definition allocInv :: "DB \<Rightarrow> bool" where
  "allocInv db =
     (\<forall>(n, r) \<in> set (regions db). \<forall>(k, ord) \<in> set (orders r).
        sum_list (map snd (allocations ord)) \<le> totalLiters ord)"

text \<open>The amount that an allocation command brings in from the page.\<close>

fun allocatedAmount :: "command \<Rightarrow> int option" where
  "allocatedAmount (AllocateFuel orderKey t amt) = Some amt"
| "allocatedAmount _ = None"

text \<open>The value stored under a key, 0 when there is none.\<close>

definition valueAt :: "(string \<times> int) list \<Rightarrow> string \<Rightarrow> int" where
  "valueAt al k = (case map_of al k of None \<Rightarrow> 0 | Some a \<Rightarrow> a)"

text \<open>A store with the order \<open>O1\<close> of 100 litres before any allocation or supply.\<close>

definition storePlain :: DB where
  "storePlain = \<lparr>currentRegion = ''North'', regions = [(''North'',
     regionOne\<lparr>technicians := [''A'', ''B''], dailyLog := [],
       orders := [(''O1'', orderO1\<lparr>suppliedTotal := 0, allocations := []\<rparr>)]\<rparr>)]\<rparr>"

subsection \<open>Supplied total and daily log\<close>

text \<open>\<open>Object.keys\<close> of a dictionary.\<close>

definition keysOf :: "('k \<times> 'v) list \<Rightarrow> 'k list" where
  "keysOf xs = map fst xs"

text \<open>What an entry adds to the litres recorded against an order, and the sum of it over a
  list of entries and over a whole daily log.\<close>

definition contrib :: "string \<Rightarrow> entry \<Rightarrow> int" where
  "contrib no e = (if entryOrderNo e = Some no then supplied e else 0)"

definition amountFor :: "string \<Rightarrow> entry list \<Rightarrow> int" where
  "amountFor no es = sum_list (map (contrib no) es)"

definition logSum :: "string \<Rightarrow> (string \<times> entry list) list \<Rightarrow> int" where
  "logSum no dlog = sum_list (map (contrib no) (concat (map snd dlog)))"

text \<open>The cached totals of the orders agree with a daily log.\<close>

definition totalsMatch :: "(string \<times> order) list \<Rightarrow> (string \<times> entry list) list \<Rightarrow> bool" where
  "totalsMatch ords dlog = (\<forall>(k, ord) \<in> set ords. suppliedTotal ord = logSum k dlog)"

text \<open>An entry with a positive amount that, when it names an order, names one of the given
  keys, not the empty one, and is not flagged unallocated.\<close>

definition entryWf :: "string set \<Rightarrow> entry \<Rightarrow> bool" where
  "entryWf keys e =
     (0 < supplied e \<and>
      (case entryOrderNo e of
         None \<Rightarrow> True
       | Some no \<Rightarrow> \<not> unallocated e \<and> no \<noteq> [] \<and> no \<in> keys))"

text \<open>A region whose order numbers and dates are keys without repetition, whose cached
  totals agree with its daily log, and whose entries are as above for its orders.\<close>

definition ledgerSupplied :: "region \<Rightarrow> bool" where
  "ledgerSupplied r =
     (distinct (keysOf (orders r)) \<and> distinct (keysOf (dailyLog r)) \<and>
      totalsMatch (orders r) (dailyLog r) \<and>
      allVals (list_all (entryWf (set (keysOf (orders r))))) (dailyLog r))"

text \<open>The supplied-total invariant of the store.\<close>

definition suppliedInv :: "DB \<Rightarrow> bool" where
  "suppliedInv db =
     (\<forall>(n, r) \<in> set (regions db). \<forall>(k, ord) \<in> set (orders r).
        suppliedTotal ord = suppliedOn k r)"

text \<open>Between the cards of a batch the list of the date is there.\<close>

definition batchInv :: "string \<Rightarrow> region \<Rightarrow> bool" where
  "batchInv d r = (ledgerSupplied r \<and> d \<in> set (keysOf (dailyLog r)))"

text \<open>A backup document whose order \<open>O1\<close> carries a supplied total of 60 litres and whose
  daily log is empty.\<close>

definition staleBackup :: backup where
  "staleBackup = \<lparr>docRegions = Some [(''North'', regionOne\<lparr>dailyLog := []\<rparr>)],
                   docCurrentRegion = Some ''North''\<rparr>"

subsection \<open>The numbers and the keys that the model shares with the code\<close>

text \<open>\<open>Number.isSafeInteger\<close>, for a whole number: on these the sums and differences of the
  code are exact. A region all of whose litres are such numbers (the total litres, the
  supplied total and the allocations of every order, and the amount of every daily entry),
  and the litres that a command brings in from the page.\<close>

definition safeInteger :: "int \<Rightarrow> bool" where
  "safeInteger x = (\<bar>x\<bar> < 2 ^ 53)"

definition litresSafe :: "region \<Rightarrow> bool" where
  "litresSafe r =
     (allVals (\<lambda>ord. safeInteger (totalLiters ord) \<and> safeInteger (suppliedTotal ord) \<and>
                      allVals safeInteger (allocations ord)) (orders r) \<and>
      allVals (list_all (\<lambda>e. safeInteger (supplied e))) (dailyLog r))"

fun litresRead :: "command \<Rightarrow> int list" where
  "litresRead (CreateOrder no plate litres date today) = [litres]"
| "litresRead (AllocateFuel orderKey t amt) = [amt]"
| "litresRead (SaveAllocEdit no tech amt) = (case amt of None \<Rightarrow> [] | Some a \<Rightarrow> [a])"
| "litresRead (SaveDaily d cards) =
     concat (map (\<lambda>c. suppInput c # (case suppMax c of None \<Rightarrow> [] | Some m \<Rightarrow> [m])) cards)"
| "litresRead (SaveEditEntry ctx newSupply c) = [newSupply]"
| "litresRead _ = []"

text \<open>The names of the members of \<open>Object.prototype\<close>, which every dictionary of the code
  inherits, and the names that a command brings in from the page and looks up in a
  dictionary of the store.\<close>

definition inherited :: "string \<Rightarrow> bool" where
  "inherited k = (k \<in> set [''constructor'', ''hasOwnProperty'', ''isPrototypeOf'',
     ''propertyIsEnumerable'', ''toLocaleString'', ''toString'', ''valueOf'', ''__proto__'',
     ''__defineGetter__'', ''__defineSetter__'', ''__lookupGetter__'', ''__lookupSetter__''])"

fun namesRead :: "command \<Rightarrow> string list" where
  "namesRead (CreateOrder no plate litres date today) = [trim no]"
| "namesRead (AllocateFuel orderKey t amt) = [orderKey, t]"
| "namesRead (SaveAllocEdit no tech amt) = [no, tech]"
| "namesRead (SaveOrderDate no date) = [no]"
| "namesRead (SaveOverageComment ctx c) =
     (case ctx of None \<Rightarrow> [] | Some (no, tech) \<Rightarrow> [no, tech])"
| "namesRead (ConfirmClone source newNo date today) =
     (case source of None \<Rightarrow> [] | Some s \<Rightarrow> [s]) @ [trim newNo]"
| "namesRead (DeleteOrder no confirm) = [no]"
| "namesRead (SaveDaily d cards) =
     d # concat (map (\<lambda>c. case dataOrder c of None \<Rightarrow> [] | Some no \<Rightarrow> [no]) cards)"
| "namesRead (SaveEditEntry ctx newSupply c) =
     (case ctx of None \<Rightarrow> [] | Some (date, idx) \<Rightarrow> [date])"
| "namesRead (DeleteDailyEntry date idx confirm) = [date]"
| "namesRead (ChangeRegion selected) = [selected]"
| "namesRead (AddRegion name) = [trim name]"
| "namesRead (DeleteRegion name confirm) = [name]"
| "namesRead (AddTechnician name plate) = [trim name]"
| "namesRead (DeleteTech name confirm) = [name]"
| "namesRead (ConfirmRename ctx name) =
     (case ctx of None \<Rightarrow> [] | Some (isRegion, oldName) \<Rightarrow> [oldName, trim name])"
| "namesRead (RestoreData parsed confirm) = []"

section \<open>Properties\<close>

subsection \<open>Rendering leaves everything but the status alone\<close>

lemma dailyLog_rendered [simp]: "dailyLog (rendered v r) = dailyLog r"
  by (simp add: rendered_def renderOrders_def)

lemma rendered_withoutStatus:
  "map (\<lambda>(k, ord). (k, ord\<lparr>status := OPEN\<rparr>)) (orders (rendered v r)) =
   map (\<lambda>(k, ord). (k, ord\<lparr>status := OPEN\<rparr>)) (orders r)"
  by (auto simp: rendered_def renderOrders_def buildOrderCard_def Let_def)

lemma rendered_fields [simp]:
  "technicians (rendered v r) = technicians r"
  "technicianPlates (rendered v r) = technicianPlates r"
  by (simp_all add: rendered_def renderOrders_def)


text \<open>What rendering does to the orders: an order that is shown and whose balance is used up
  is closed.\<close>

lemma closed_again: "status ord = CLOSED \<Longrightarrow> ord\<lparr>status := CLOSED\<rparr> = ord"
  by (cases ord) simp

lemma orders_rendered_eq:
  "orders (rendered v r) =
     map (\<lambda>(k, ord). (k, if shown v ord \<and> totalLiters ord - suppliedTotal ord \<le> 0
                           then ord\<lparr>status := CLOSED\<rparr> else ord)) (orders r)"
  by (auto simp: rendered_def renderOrders_def buildOrderCard_def Let_def closed_again)

lemma rendered_eq:
  "rendered v r =
     r\<lparr>orders := map (\<lambda>(k, ord). (k, if shown v ord \<and> totalLiters ord - suppliedTotal ord \<le> 0
                           then ord\<lparr>status := CLOSED\<rparr> else ord)) (orders r)\<rparr>"
  by (rule region.equality) (simp_all add: orders_rendered_eq)

subsection \<open>Date keys after deletions\<close>








subsection \<open>Allocating to a technician who has an allocation\<close>

text \<open>With a stored allocation other than zero the alert is shown and nothing changes.\<close>

lemma allocateFuel_AlreadyAllocated:
  assumes "map_of (orders r) orderKey = Some ord" "t \<noteq> []" "amt \<noteq> 0"
    "map_of (allocations ord) t = Some a" "a \<noteq> 0"
  shows "allocateFuel orderKey t amt r = (Alerted AlreadyAllocated, r)"
  using assms by (simp add: allocateFuel_def)

text \<open>
  C7. An allocation entry of zero litres is not seen by \<open>if (o.allocations[t])\<close>:
  on \<open>regionOne\<close>, editing the allocation of \<open>A\<close> on \<open>O1\<close> to 0 leaves the entry
  \<open>A \<mapsto> 0\<close> in the map, and allocating 50 litres to \<open>A\<close> on \<open>O1\<close> afterwards succeeds and
  overwrites it, where the claim has the failure \<open>AlreadyAllocated\<close> and an unchanged map.
\<close>

theorem allocateFuel_overwrites_zero_allocation:
  "saveAllocEdit plainView ''O1'' ''A'' (Some 0) regionOne =
     (Done, regionOne\<lparr>orders := [(''O1'', orderO1\<lparr>allocations := [(''A'', 0)]\<rparr>)]\<rparr>) \<and>
   allocateFuel ''O1'' ''A'' 50
       (regionOne\<lparr>orders := [(''O1'', orderO1\<lparr>allocations := [(''A'', 0)]\<rparr>)]\<rparr>) =
     (Done, regionOne\<lparr>orders := [(''O1'', orderO1\<lparr>allocations := [(''A'', 50)]\<rparr>)]\<rparr>)"
  by (simp add: saveAllocEdit_def allocateFuel_def allocated_def regionOne_def orderO1_def
      plainView_def rendered_def renderOrders_def shown_def buildOrderCard_def Let_def)

subsection \<open>The amount applied by a daily batch\<close>

text \<open>With a cap other than zero on the card, the loop body books the smaller of the typed
  amount and the cap on the order and appends an entry with that amount.\<close>

lemma saveCard_capped:
  assumes "techSel c \<noteq> []" "0 < suppInput c" "\<not> dataUnallocated c" "dataOrder c = Some no"
    "no \<noteq> []" "map_of (orders r) no = Some ord" "status ord = OPEN"
    "suppMax c = Some m" "m \<noteq> 0"
  shows "saveCard d (r, saved, skipped) c =
    (pushEntry d \<lparr>entryOrderNo = Some no, technician = techSel c,
        supplied = min (suppInput c) m, comment = None, unallocated = False\<rparr>
       (r\<lparr>orders := AList.map_entry no
            (\<lambda>x. x\<lparr>suppliedTotal := suppliedTotal x + min (suppInput c) m\<rparr>) (orders r)\<rparr>),
     saved + 1, skipped)"
  using assms by (simp add: saveCard_def actualAmount_def maxAllowed_def Let_def)

text \<open>
  C5. On \<open>regionOne\<close> technician \<open>A\<close> has used up the allocation of 60 litres on the open
  order \<open>O1\<close>, whose balance is 40. The form caps the card at \<open>Math.min(left, orderBal) = 0\<close>,
  and \<open>+max || Infinity\<close> reads the zero as no cap: a request of 70 litres is applied in
  full, the order goes to 130 of 100 litres and the entry records 70, where the minimum of
  the request, the remaining allocation and the remaining balance is 0.
\<close>

theorem saveDaily_zero_cap_applies_request:
  "suppMax cardA70 = Some 0 \<and> dataOrder cardA70 = Some ''O1'' \<and>
   min 70 (min (60 - usedSoFar ''O1'' ''A'' regionOne)
               (totalLiters orderO1 - suppliedTotal orderO1)) = 0 \<and>
   saveDaily plainView ''2025-01-03'' [cardA70] regionOne =
     (Saved 1 0,
      regionOne\<lparr>orders := [(''O1'', orderO1\<lparr>suppliedTotal := 130, status := CLOSED\<rparr>)],
                dailyLog := [(''2025-01-02'', [entryA]),
                             (''2025-01-03'', [entryA\<lparr>supplied := 70\<rparr>])]\<rparr>)"
  by (simp add: cardA70_def freshCard_def techSelected_def assignedOrders_def
      updateOrderDetails_def usedSoFar_def allEntries_def saveDaily_def saveCard_def
      actualAmount_def maxAllowed_def pushEntry_def closeSupplied_def regionOne_def
      orderO1_def entryA_def plainView_def rendered_def renderOrders_def shown_def
      buildOrderCard_def Let_def)


subsection \<open>The counts of a daily batch\<close>

lemma cardSaved_sameStatus: "sameStatus r r' \<Longrightarrow> cardSaved r' c = cardSaved r c"
  unfolding sameStatus_def cardSaved_def
  apply (cases "dataOrder c")
   apply simp
  subgoal for no
    apply (drule spec[of _ no])
    apply (auto split: option.splits)
    done
  done

lemma saveCard_step:
  assumes "map_of (dailyLog r) d = Some es"
  shows "\<exists>r'. saveCard d (r, saved, skipped) c =
           (r', saved + (if cardSaved r c then 1 else 0),
            skipped + (if cardSkipped c then 1 else 0)) \<and>
         sameStatus r r' \<and>
         map_of (dailyLog r') d = Some (es @ (if cardSaved r c then [cardEntry c] else [])) \<and>
         (\<forall>d'. d' \<noteq> d \<longrightarrow> map_of (dailyLog r') d' = map_of (dailyLog r) d')"
  using assms
  by (auto simp: saveCard_def cardSaved_def cardSkipped_def cardEntry_def cardComment_def
      pushEntry_def sameStatus_def Let_def AList.map_of_map_entry
      split: option.splits)

lemma sameStatus_trans: "sameStatus r r1 \<Longrightarrow> sameStatus r1 r2 \<Longrightarrow> sameStatus r r2"
  by (simp add: sameStatus_def)

lemma foldl_saveCard:
  assumes "map_of (dailyLog r) d = Some es"
  shows "\<exists>r'. foldl (saveCard d) (r, saved, skipped) cards =
           (r', saved + length (filter (cardSaved r) cards),
            skipped + length (filter cardSkipped cards)) \<and>
         sameStatus r r' \<and>
         map_of (dailyLog r') d = Some (es @ map cardEntry (filter (cardSaved r) cards)) \<and>
         (\<forall>d'. d' \<noteq> d \<longrightarrow> map_of (dailyLog r') d' = map_of (dailyLog r) d')"
  using assms
proof (induction cards arbitrary: r saved skipped es)
  case Nil
  then show ?case by (simp add: sameStatus_def)
next
  case (Cons c cards)
  from saveCard_step[OF Cons.prems, of saved skipped c]
  obtain r1 where step: "saveCard d (r, saved, skipped) c =
           (r1, saved + (if cardSaved r c then 1 else 0),
            skipped + (if cardSkipped c then 1 else 0))"
    and st: "sameStatus r r1"
    and log: "map_of (dailyLog r1) d = Some (es @ (if cardSaved r c then [cardEntry c] else []))"
    and other: "\<forall>d'. d' \<noteq> d \<longrightarrow> map_of (dailyLog r1) d' = map_of (dailyLog r) d'"
    by blast
  from Cons.IH[OF log, of "saved + (if cardSaved r c then 1 else 0)"
      "skipped + (if cardSkipped c then 1 else 0)"]
  obtain r2 where rest: "foldl (saveCard d) (r1, saved + (if cardSaved r c then 1 else 0),
          skipped + (if cardSkipped c then 1 else 0)) cards =
        (r2, saved + (if cardSaved r c then 1 else 0) + length (filter (cardSaved r1) cards),
         skipped + (if cardSkipped c then 1 else 0) + length (filter cardSkipped cards))"
    and st2: "sameStatus r1 r2"
    and log2: "map_of (dailyLog r2) d =
        Some ((es @ (if cardSaved r c then [cardEntry c] else [])) @
              map cardEntry (filter (cardSaved r1) cards))"
    and other2: "\<forall>d'. d' \<noteq> d \<longrightarrow> map_of (dailyLog r2) d' = map_of (dailyLog r1) d'"
    by blast
  have eq: "cardSaved r1 = cardSaved r"
    using cardSaved_sameStatus[OF st] by blast
  show ?case
    using step rest st st2 log2 other other2
    by (auto simp: eq intro: sameStatus_trans)
qed

lemma dailyLog_closeSupplied [simp]: "dailyLog (closeSupplied r) = dailyLog r"
  by (simp add: closeSupplied_def)

text \<open>
  C8 (as amended). For a batch with a date and at least one card, the two counts that
  \<open>saveDaily\<close> reports are the number of saved cards and the number of unallocated cards
  without comment; no card is in both; the entries appended to the date are exactly those of
  the saved cards, in order, and no other date changes; an unallocated card without comment
  is counted as skipped and not saved; a card with a zero or negative amount is in neither
  count and appends nothing.
\<close>

theorem saveDaily_counts:
  assumes "d \<noteq> []" "cards \<noteq> []"
  shows "fst (saveDaily v d cards r) =
           Saved (length (filter (cardSaved r) cards)) (length (filter cardSkipped cards)) \<and>
         map_of (dailyLog (snd (saveDaily v d cards r))) d =
           Some ((case map_of (dailyLog r) d of None \<Rightarrow> [] | Some es \<Rightarrow> es) @
                 map cardEntry (filter (cardSaved r) cards)) \<and>
         (\<forall>d'. d' \<noteq> d \<longrightarrow>
            map_of (dailyLog (snd (saveDaily v d cards r))) d' = map_of (dailyLog r) d') \<and>
         (\<forall>c. \<not> (cardSaved r c \<and> cardSkipped c)) \<and>
         (\<forall>c. techSel c \<noteq> [] \<and> 0 < suppInput c \<and> dataUnallocated c \<and> cardComment c = []
              \<longrightarrow> cardSkipped c \<and> \<not> cardSaved r c) \<and>
         (\<forall>c. suppInput c \<le> 0 \<longrightarrow> \<not> cardSaved r c \<and> \<not> cardSkipped c)"
proof -
  define r0 where "r0 = (if map_of (dailyLog r) d = None
                  then r\<lparr>dailyLog := AList.update d [] (dailyLog r)\<rparr> else r)"
  define es where "es = (case map_of (dailyLog r) d of None \<Rightarrow> [] | Some es \<Rightarrow> es)"
  have log0: "map_of (dailyLog r0) d = Some es"
    by (auto simp: r0_def es_def AList.update_conv')
  have other0: "\<forall>d'. d' \<noteq> d \<longrightarrow> map_of (dailyLog r0) d' = map_of (dailyLog r) d'"
    by (auto simp: r0_def AList.update_conv')
  have ord0: "orders r0 = orders r"
    by (simp add: r0_def)
  have sv: "cardSaved r0 = cardSaved r"
    unfolding cardSaved_def ord0 ..
  from foldl_saveCard[OF log0, of 0 0 cards]
  obtain r1 where f: "foldl (saveCard d) (r0, 0, 0) cards =
           (r1, length (filter (cardSaved r) cards), length (filter cardSkipped cards))"
    and log1: "map_of (dailyLog r1) d = Some (es @ map cardEntry (filter (cardSaved r) cards))"
    and other1: "\<forall>d'. d' \<noteq> d \<longrightarrow> map_of (dailyLog r1) d' = map_of (dailyLog r0) d'"
    by (auto simp: sv)
  have res: "saveDaily v d cards r =
      (Saved (length (filter (cardSaved r) cards)) (length (filter cardSkipped cards)),
       rendered v (closeSupplied r1))"
    using assms f by (simp add: saveDaily_def r0_def[symmetric] Let_def)
  show ?thesis
    using log1 other1 other0
    by (auto simp: res es_def cardSaved_def cardSkipped_def)
qed

theorem saveDaily_counts_witness:
  "''2025-01-03'' \<noteq> [] \<and> [cardA70, cardB5] \<noteq> [] \<and>
   techSel cardB5 \<noteq> [] \<and> 0 < suppInput cardB5 \<and> dataUnallocated cardB5 \<and>
   cardComment cardB5 = [] \<and> cardSkipped cardB5 \<and> \<not> cardSaved regionOne cardB5 \<and>
   fst (saveDaily plainView ''2025-01-03'' [cardA70, cardB5] regionOne) = Saved 1 1 \<and>
   map_of (dailyLog (snd (saveDaily plainView ''2025-01-03'' [cardA70, cardB5] regionOne)))
     ''2025-01-03'' = Some [entryA\<lparr>supplied := 70\<rparr>]"
proof -
  have h: "''2025-01-03'' \<noteq> []" "[cardA70, cardB5] \<noteq> []"
    by simp_all
  have a: "cardSaved regionOne cardA70" "\<not> cardSkipped cardA70"
    "cardEntry cardA70 = entryA\<lparr>supplied := 70\<rparr>"
    by (simp_all add: cardSaved_def cardSkipped_def cardEntry_def cardA70_def freshCard_def
        techSelected_def assignedOrders_def updateOrderDetails_def usedSoFar_def
        allEntries_def actualAmount_def maxAllowed_def regionOne_def orderO1_def entryA_def)
  have b: "techSel cardB5 \<noteq> []" "0 < suppInput cardB5" "dataUnallocated cardB5"
    "cardComment cardB5 = []"
    by (simp_all add: cardComment_def cardB5_def freshCard_def techSelected_def
        assignedOrders_def trim_def regionOne_def orderO1_def)
  have l: "map_of (dailyLog regionOne) ''2025-01-03'' = None"
    by (simp add: regionOne_def)
  from saveDaily_counts[OF h, of plainView regionOne] a b l
  show ?thesis by auto
qed

text \<open>
  C8 (as stated) fails for a card without an amount: the batch of the one card
  \<open>freshCard ''A''\<close> (technician chosen, no litres typed) reports 0 saved and 0 skipped, so
  the card is in neither count.
\<close>

theorem saveDaily_card_in_neither_count:
  "fst (saveDaily plainView ''2025-01-03'' [freshCard ''A''] regionOne) = Saved 0 0 \<and>
   length [freshCard ''A''] = 1"
  by (simp add: saveDaily_def saveCard_def freshCard_def)


subsection \<open>The set of regions\<close>

lemma regions_onCurrent_nonempty: "regions db \<noteq> [] \<Longrightarrow> regions (snd (onCurrent f db)) \<noteq> []"
  by (auto simp: onCurrent_def split: option.splits prod.splits)

lemma delete_nonempty:
  assumes "distinct (map fst xs)" "\<not> length xs \<le> 1"
  shows "AList.delete k xs \<noteq> []"
proof (cases xs)
  case Nil
  with assms show ?thesis by simp
next
  case (Cons a ys)
  then obtain b zs where ys: "ys = b # zs"
    using assms by (cases ys) auto
  with Cons assms have "fst a \<noteq> fst b" by auto
  then show ?thesis
    by (cases a; cases b) (auto simp: Cons ys AList.delete_eq)
qed

lemma renamed_nonempty: "newName \<noteq> oldName \<Longrightarrow> AList.delete oldName (AList.update newName r xs) \<noteq> []"
proof -
  assume ne: "newName \<noteq> oldName"
  have "(newName, r) \<in> set (AList.update newName r xs)"
    by (induction xs) auto
  with ne have "(newName, r) \<in> set (AList.delete oldName (AList.update newName r xs))"
    by (auto simp: AList.delete_eq)
  then show ?thesis by auto
qed

lemma regions_deleteRegion_nonempty:
  "regions db \<noteq> [] \<Longrightarrow> distinct (map fst (regions db)) \<Longrightarrow>
   regions (snd (deleteRegion name confirm db)) \<noteq> []"
  by (auto simp: deleteRegion_def Let_def delete_nonempty split: option.splits)

lemma regions_confirmRename_nonempty:
  "regions db \<noteq> [] \<Longrightarrow> regions (snd (confirmRename ctx name db)) \<noteq> []"
  by (auto simp: confirmRename_def renameRegion_def renameTech_def Let_def renamed_nonempty
      split: option.splits)

text \<open>
  C4 (as amended). On a store with at least one region, every operation other than restore
  leaves at least one region; \<open>deleteRegion\<close> refuses when at most one region is left; and a
  restore that passes the format test and the confirmation installs the region mapping of the
  document as it is, empty or not.
\<close>

theorem regions_nonempty_unless_restored:
  assumes "regions db \<noteq> []" "distinct (map fst (regions db))"
  shows "(\<not> isRestore cmd \<longrightarrow> regions (snd (exec v cmd db)) \<noteq> []) \<and>
         (length (regions db) \<le> 1 \<longrightarrow>
            exec v (DeleteRegion name confirm) db = (Alerted LastRegion, db)) \<and>
         (docRegions doc = Some regs \<and> docCurrentRegion doc = Some cur \<and> cur \<noteq> [] \<longrightarrow>
            regions (snd (exec v (RestoreData (Some doc) True) db)) = regs)"
proof (intro conjI impI)
  assume "\<not> isRestore cmd"
  then show "regions (snd (exec v cmd db)) \<noteq> []"
    using assms
    by (cases cmd)
      (simp_all add: regions_onCurrent_nonempty regions_deleteRegion_nonempty
        regions_confirmRename_nonempty changeRegion_def addRegion_def Let_def)
next
  assume "length (regions db) \<le> 1"
  then show "exec v (DeleteRegion name confirm) db = (Alerted LastRegion, db)"
    by (simp add: deleteRegion_def)
next
  assume "docRegions doc = Some regs \<and> docCurrentRegion doc = Some cur \<and> cur \<noteq> []"
  then show "regions (snd (exec v (RestoreData (Some doc) True) db)) = regs"
    by (simp add: restoreData_def Let_def)
qed

theorem regions_nonempty_unless_restored_witness:
  "regions storeOne \<noteq> [] \<and> distinct (map fst (regions storeOne)) \<and>
   \<not> isRestore (AddRegion ''South'') \<and>
   regions (snd (exec plainView (AddRegion ''South'') storeOne)) \<noteq> [] \<and>
   length (regions storeOne) \<le> 1 \<and>
   exec plainView (DeleteRegion ''North'' True) storeOne = (Alerted LastRegion, storeOne) \<and>
   docRegions \<lparr>docRegions = Some (regions storeOne), docCurrentRegion = Some ''North''\<rparr>
     = Some (regions storeOne) \<and>
   regions (snd (exec plainView (RestoreData
       (Some \<lparr>docRegions = Some (regions storeOne), docCurrentRegion = Some ''North''\<rparr>) True)
       DB_DEFAULT)) = regions storeOne"
proof -
  have h: "regions storeOne \<noteq> []" "distinct (map fst (regions storeOne))"
    "regions DB_DEFAULT \<noteq> []" "distinct (map fst (regions DB_DEFAULT))"
    by (simp_all add: storeOne_def DB_DEFAULT_def)
  have l: "length (regions storeOne) \<le> 1"
    by (simp add: storeOne_def)
  from regions_nonempty_unless_restored[OF h(1,2), of "AddRegion ''South''" plainView
      "''North''" True "\<lparr>docRegions = None, docCurrentRegion = None\<rparr>" "[]" "[]"]
    regions_nonempty_unless_restored[OF h(3,4), of "AddRegion ''South''" plainView
      "''North''" True
      "\<lparr>docRegions = Some (regions storeOne), docCurrentRegion = Some ''North''\<rparr>"
      "regions storeOne" "''North''"]
    h l
  show ?thesis by simp
qed

text \<open>
  C4 (as stated) fails at restore: the format test \<open>!parsed.regions || !parsed.currentRegion\<close>
  lets the empty object pass, \<open>replaceDB\<close> installs the document, and only the render after
  it throws.
\<close>

theorem restore_installs_empty_regions:
  "regions storeOne \<noteq> [] \<and>
   exec plainView (RestoreData (Some emptyBackup) True) storeOne =
     (Alerted RestoreFailed, \<lparr>currentRegion = ''North'', regions = []\<rparr>)"
  by (simp add: restoreData_def emptyBackup_def storeOne_def)


subsection \<open>What the read operations leave of the store\<close>

lemma rendered_same:
  assumes "closedWhenSupplied r"
  shows "rendered v r = r"
proof -
  have "map (\<lambda>(k, ord). (k, if shown v ord then snd (buildOrderCard v ord r) else ord)) (orders r)
        = map (\<lambda>x. x) (orders r)"
    using assms
    by (intro map_cong) (auto simp: closedWhenSupplied_def buildOrderCard_def Let_def)
  then show ?thesis
    by (simp add: rendered_def renderOrders_def)
qed

lemma map_update_same:
  assumes "map_of xs k = Some x" "g x' = g x"
  shows "map (\<lambda>(n, y). (n, g y)) (AList.update k x' xs) = map (\<lambda>(n, y). (n, g y)) xs"
  using assms by (induction xs) (auto split: if_splits)

text \<open>
  C9 (as amended). The leaderboard, the technician history, the unallocated report and the
  three export sheets leave the store as it is: the code assigns to nothing of the store in
  them and sorts only the arrays it has built, so that they are functions from the store to
  what they show. Rendering the order cards, where the stale test is computed, closes every
  order of the current region that it shows and whose balance, total litres less supplied
  total, is not positive, and leaves every other order and everything else as it is; without
  the current region it throws and leaves the store. So it leaves the store as it is when
  every order of the current region whose supplied total has reached its total litres is
  already closed, and it changes nothing but order statuses.
\<close>

theorem read_operations_frame:
  "(p \<noteq> OrderCards \<longrightarrow> snd (runProjection v p db) = db) \<and>
   (\<forall>r. map_of (regions db) (currentRegion db) = Some r \<longrightarrow>
      snd (runProjection v OrderCards db) =
        db\<lparr>regions := AList.update (currentRegion db)
             (r\<lparr>orders := map (\<lambda>(k, ord).
                   (k, if shown v ord \<and> totalLiters ord - suppliedTotal ord \<le> 0
                       then ord\<lparr>status := CLOSED\<rparr> else ord)) (orders r)\<rparr>)
             (regions db)\<rparr>) \<and>
   (map_of (regions db) (currentRegion db) = None \<longrightarrow>
      runProjection v OrderCards db = (None, db)) \<and>
   ((\<forall>r. map_of (regions db) (currentRegion db) = Some r \<longrightarrow> closedWhenSupplied r) \<longrightarrow>
      snd (runProjection v OrderCards db) = db) \<and>
   withoutStatus (snd (runProjection v OrderCards db)) = withoutStatus db"
proof (intro conjI impI allI)
  assume "p \<noteq> OrderCards"
  then show "snd (runProjection v p db) = db"
    by (cases p) (simp_all add: runProjection_def)
next
  fix r assume "map_of (regions db) (currentRegion db) = Some r"
  then show "snd (runProjection v OrderCards db) =
        db\<lparr>regions := AList.update (currentRegion db)
             (r\<lparr>orders := map (\<lambda>(k, ord).
                   (k, if shown v ord \<and> totalLiters ord - suppliedTotal ord \<le> 0
                       then ord\<lparr>status := CLOSED\<rparr> else ord)) (orders r)\<rparr>)
             (regions db)\<rparr>"
    by (simp add: runProjection_def rendered_eq)
next
  assume "map_of (regions db) (currentRegion db) = None"
  then show "runProjection v OrderCards db = (None, db)"
    by (simp add: runProjection_def)
next
  assume "\<forall>r. map_of (regions db) (currentRegion db) = Some r \<longrightarrow> closedWhenSupplied r"
  then show "snd (runProjection v OrderCards db) = db"
    by (auto simp: runProjection_def rendered_same AList.update_triv split: option.splits)
next
  show "withoutStatus (snd (runProjection v OrderCards db)) = withoutStatus db"
  proof (cases "map_of (regions db) (currentRegion db)")
    case None
    then show ?thesis by (simp add: runProjection_def)
  next
    case (Some r)
    have "(rendered v r)\<lparr>orders := map (\<lambda>(k, ord). (k, ord\<lparr>status := OPEN\<rparr>)) (orders (rendered v r))\<rparr>
        = r\<lparr>orders := map (\<lambda>(k, ord). (k, ord\<lparr>status := OPEN\<rparr>)) (orders r)\<rparr>"
      by (simp add: rendered_withoutStatus)
    from map_update_same[OF Some, of
        "\<lambda>r. r\<lparr>orders := map (\<lambda>(k, ord). (k, ord\<lparr>status := OPEN\<rparr>)) (orders r)\<rparr>"
        "rendered v r", OF this]
    show ?thesis
      using Some by (simp add: runProjection_def withoutStatus_def)
  qed
qed

theorem read_operations_frame_witness:
  "Leaderboard [] None \<noteq> OrderCards \<and>
   snd (runProjection plainView (Leaderboard [] None) storeOne) = storeOne \<and>
   map_of (regions storeOne) (currentRegion storeOne) = Some regionOne \<and>
   closedWhenSupplied regionOne \<and>
   snd (runProjection plainView OrderCards storeOne) = storeOne \<and>
   map_of (regions (storeOne\<lparr>currentRegion := ''South''\<rparr>))
     (currentRegion (storeOne\<lparr>currentRegion := ''South''\<rparr>)) = None \<and>
   runProjection plainView OrderCards (storeOne\<lparr>currentRegion := ''South''\<rparr>) =
     (None, storeOne\<lparr>currentRegion := ''South''\<rparr>) \<and>
   map_of (regions storeZeroOrder) (currentRegion storeZeroOrder) =
     Some \<lparr>technicians = [], technicianPlates = [], orders = [(''O2'', zeroOrder)],
            dailyLog = []\<rparr> \<and>
   snd (runProjection plainView OrderCards storeZeroOrder) =
     \<lparr>currentRegion = ''New CCS'', regions = [(''New CCS'',
        \<lparr>technicians = [], technicianPlates = [],
         orders = [(''O2'', zeroOrder\<lparr>status := CLOSED\<rparr>)], dailyLog = []\<rparr>)]\<rparr>"
proof -
  have m: "map_of (regions storeOne) (currentRegion storeOne) = Some regionOne"
    by (simp add: storeOne_def)
  have c: "closedWhenSupplied regionOne"
    by (simp add: closedWhenSupplied_def regionOne_def orderO1_def)
  have n: "map_of (regions (storeOne\<lparr>currentRegion := ''South''\<rparr>))
     (currentRegion (storeOne\<lparr>currentRegion := ''South''\<rparr>)) = None"
    by (simp add: storeOne_def)
  have a: "storeZeroOrder = \<lparr>currentRegion = ''New CCS'', regions = [(''New CCS'',
      \<lparr>technicians = [], technicianPlates = [], orders = [(''O2'', zeroOrder)],
       dailyLog = []\<rparr>)]\<rparr>"
    by (simp add: storeZeroOrder_def zeroOrder_def laterView_def plainView_def DB_DEFAULT_def
        onCurrent_def createOrder_def trim_def isSpace_def rendered_def renderOrders_def
        shown_def str_le_def buildOrderCard_def Let_def)
  have q: "map_of (regions storeZeroOrder) (currentRegion storeZeroOrder) =
     Some \<lparr>technicians = [], technicianPlates = [], orders = [(''O2'', zeroOrder)],
            dailyLog = []\<rparr>"
    by (simp add: a)
  note frame = read_operations_frame[of "Leaderboard [] None" plainView storeOne]
  have 1: "snd (runProjection plainView (Leaderboard [] None) storeOne) = storeOne"
    by (rule frame[THEN conjunct1, rule_format]) simp
  have 2: "snd (runProjection plainView OrderCards storeOne) = storeOne"
    by (rule frame[THEN conjunct2, THEN conjunct2, THEN conjunct2, THEN conjunct1, rule_format])
      (use m c in simp)
  have 3: "runProjection plainView OrderCards (storeOne\<lparr>currentRegion := ''South''\<rparr>) =
     (None, storeOne\<lparr>currentRegion := ''South''\<rparr>)"
    by (rule read_operations_frame[THEN conjunct2, THEN conjunct2, THEN conjunct1, rule_format])
      (rule n)
  have 4: "snd (runProjection plainView OrderCards storeZeroOrder) =
     \<lparr>currentRegion = ''New CCS'', regions = [(''New CCS'',
        \<lparr>technicians = [], technicianPlates = [],
         orders = [(''O2'', zeroOrder\<lparr>status := CLOSED\<rparr>)], dailyLog = []\<rparr>)]\<rparr>"
    using read_operations_frame[of OrderCards plainView storeZeroOrder,
        THEN conjunct2, THEN conjunct1, rule_format, OF q]
    by (simp add: a zeroOrder_def shown_def plainView_def)
  from m c n q 1 2 3 4 show ?thesis by simp
qed

text \<open>
  C9 (as stated) fails for the order cards: on the store with the open order \<open>O2\<close> of no
  litres, \<open>_buildOrderCard\<close> sets the status of the order to \<open>CLOSED\<close>.
\<close>

theorem order_cards_close_order:
  "storeZeroOrder = \<lparr>currentRegion = ''New CCS'', regions = [(''New CCS'',
      \<lparr>technicians = [], technicianPlates = [],
       orders = [(''O2'', \<lparr>orderNo = ''O2'', vehiclePlate = ''P2'', totalLiters = 0,
            suppliedTotal = 0, allocations = [], status = OPEN,
            createdDate = ''2025-01-01'', overageComments = []\<rparr>)],
       dailyLog = []\<rparr>)]\<rparr> \<and>
   snd (runProjection plainView OrderCards storeZeroOrder) =
     \<lparr>currentRegion = ''New CCS'', regions = [(''New CCS'',
      \<lparr>technicians = [], technicianPlates = [],
       orders = [(''O2'', \<lparr>orderNo = ''O2'', vehiclePlate = ''P2'', totalLiters = 0,
            suppliedTotal = 0, allocations = [], status = CLOSED,
            createdDate = ''2025-01-01'', overageComments = []\<rparr>)],
       dailyLog = []\<rparr>)]\<rparr> \<and>
   snd (runProjection plainView OrderCards storeZeroOrder) \<noteq> storeZeroOrder"
proof -
  have a: "storeZeroOrder = \<lparr>currentRegion = ''New CCS'', regions = [(''New CCS'',
      \<lparr>technicians = [], technicianPlates = [],
       orders = [(''O2'', \<lparr>orderNo = ''O2'', vehiclePlate = ''P2'', totalLiters = 0,
            suppliedTotal = 0, allocations = [], status = OPEN,
            createdDate = ''2025-01-01'', overageComments = []\<rparr>)],
       dailyLog = []\<rparr>)]\<rparr>"
    by (simp add: storeZeroOrder_def laterView_def plainView_def DB_DEFAULT_def onCurrent_def
        createOrder_def trim_def isSpace_def rendered_def renderOrders_def shown_def
        str_le_def buildOrderCard_def Let_def)
  show ?thesis
    unfolding a
    by (simp add: runProjection_def plainView_def rendered_def renderOrders_def shown_def
        buildOrderCard_def Let_def)
qed


subsection \<open>Renaming a technician and the supply history\<close>

lemma sum_insertBy: "sum_list (map f (insertBy le x ys)) = (f x :: int) + sum_list (map f ys)"
  by (induction ys) auto

lemma sum_sortBy: "sum_list (map f (sortBy le xs)) = (sum_list (map f xs) :: int)"
  by (induction xs) (auto simp: sortBy_def sum_insertBy)

lemma insertBy_not_Nil: "insertBy le x ys \<noteq> []"
  by (cases ys) auto

lemma sortBy_Nil_iff: "sortBy le xs = [] \<longleftrightarrow> xs = []"
  by (cases xs) (auto simp: sortBy_def insertBy_not_Nil)

lemma gathered_entries:
  "map fst (concat (map (\<lambda>(date, es). map (\<lambda>e. (e, date, rName)) (filter P es)) dlog)) =
   filter P (concat (map snd dlog))"
  by (induction dlog) (auto simp: comp_def)

lemma history_litres:
  "fst (snd (openTechHistory t db)) = sum_list (map (\<lambda>(n, r). litresIn t r) (regions db))"
proof -
  have "sum_list (map (\<lambda>x. supplied (fst x))
          (concat (map (\<lambda>(rName, r). concat (map (\<lambda>(date, es).
             map (\<lambda>e. (e, date, rName)) (filter (\<lambda>e. technician e = t) es)) (dailyLog r))) regs)))
        = sum_list (map (\<lambda>(n, r). litresIn t r) regs)" for regs
  proof (induction regs)
    case Nil
    then show ?case by simp
  next
    case (Cons a regs)
    obtain n r where a: "a = (n, r)" by (cases a)
    have "sum_list (map (\<lambda>x. supplied (fst x))
            (concat (map (\<lambda>(date, es). map (\<lambda>e. (e, date, n))
               (filter (\<lambda>e. technician e = t) es)) (dailyLog r))))
          = sum_list (map supplied (map fst
            (concat (map (\<lambda>(date, es). map (\<lambda>e. (e, date, n))
               (filter (\<lambda>e. technician e = t) es)) (dailyLog r)))))"
      by (simp add: comp_def)
    also have "\<dots> = litresIn t r"
      by (simp only: gathered_entries litresIn_def allEntries_def)
    finally show ?case
      using Cons.IH by (simp add: a)
  qed
  then show ?thesis
    by (simp add: openTechHistory_def techEntries_def Let_def sum_sortBy)
qed

lemma history_empty:
  "fst (openTechHistory t db) = [] \<longleftrightarrow>
   (\<forall>(n, r) \<in> set (regions db). \<forall>e \<in> set (allEntries r). technician e \<noteq> t)"
proof -
  have one: "concat (map (\<lambda>(date, es).
             map (\<lambda>e. (e, date, n)) (filter (\<lambda>e. technician e = t) es)) (dailyLog r)) = []
        \<longleftrightarrow> (\<forall>e \<in> set (allEntries r). technician e \<noteq> t)" for n r
  proof -
    have "concat (map (\<lambda>(date, es).
             map (\<lambda>e. (e, date, n)) (filter (\<lambda>e. technician e = t) es)) (dailyLog r)) = []
        \<longleftrightarrow> map fst (concat (map (\<lambda>(date, es).
             map (\<lambda>e. (e, date, n)) (filter (\<lambda>e. technician e = t) es)) (dailyLog r))) = []"
      by simp
    also have "\<dots> \<longleftrightarrow> filter (\<lambda>e. technician e = t) (allEntries r) = []"
      by (simp only: gathered_entries allEntries_def)
    also have "\<dots> \<longleftrightarrow> (\<forall>e \<in> set (allEntries r). technician e \<noteq> t)"
      by (simp add: filter_empty_conv)
    finally show ?thesis .
  qed
  have "concat (map (\<lambda>(rName, r). concat (map (\<lambda>(date, es).
             map (\<lambda>e. (e, date, rName)) (filter (\<lambda>e. technician e = t) es)) (dailyLog r))) regs) = []
        \<longleftrightarrow> (\<forall>(n, r) \<in> set regs. \<forall>e \<in> set (allEntries r). technician e \<noteq> t)" for regs
  proof (induction regs)
    case Nil
    then show ?case by simp
  next
    case (Cons a regs)
    obtain n r where a: "a = (n, r)" by (cases a)
    show ?case
      using Cons.IH by (simp add: a one del: concat_eq_Nil_conv)
  qed
  then show ?thesis
    by (simp add: openTechHistory_def techEntries_def Let_def sortBy_Nil_iff)
qed

lemma allEntries_renameTechIn:
  "allEntries (renameTechIn oldName newName r) =
   (if oldName \<in> set (technicians r)
    then map (\<lambda>e. if technician e = oldName then e\<lparr>technician := newName\<rparr> else e) (allEntries r)
    else allEntries r)"
  by (simp add: renameTechIn_def allEntries_def map_concat comp_def case_prod_unfold)

lemma litresIn_renamed:
  assumes "newName \<noteq> oldName"
    "\<forall>e \<in> set (allEntries r). technician e \<noteq> newName"
    "(\<exists>e \<in> set (allEntries r). technician e = oldName) \<longrightarrow> oldName \<in> set (technicians r)"
  shows "litresIn newName (renameTechIn oldName newName r) = litresIn oldName r"
proof (cases "oldName \<in> set (technicians r)")
  case True
  have "sum_list (map supplied (filter (\<lambda>e. technician e = newName)
          (map (\<lambda>e. if technician e = oldName then e\<lparr>technician := newName\<rparr> else e) es)))
      = sum_list (map supplied (filter (\<lambda>e. technician e = oldName) es))"
    if "\<forall>e \<in> set es. technician e \<noteq> newName" for es
    using that by (induction es) auto
  with assms(2) True show ?thesis
    by (simp add: litresIn_def allEntries_renameTechIn)
next
  case False
  with assms(3) have "\<forall>e \<in> set (allEntries r). technician e \<noteq> oldName" by blast
  with assms(2) False show ?thesis
    by (simp add: litresIn_def allEntries_renameTechIn filter_False)
qed

lemma none_left_renamed:
  assumes "newName \<noteq> oldName"
    "(\<exists>e \<in> set (allEntries r). technician e = oldName) \<longrightarrow> oldName \<in> set (technicians r)"
  shows "\<forall>e \<in> set (allEntries (renameTechIn oldName newName r)). technician e \<noteq> oldName"
  using assms by (auto simp: allEntries_renameTechIn)

text \<open>
  C6 (as amended). When the new name differs from the old one, no daily entry of any region is
  recorded under the new name, and every region that has an entry under the old name lists the
  old name among its technicians, then after the rename the technician history totals under the
  new name the litres it totalled under the old name before, and no entry is left under the
  old name.
\<close>

theorem renameTech_moves_history:
  assumes "newName \<noteq> oldName"
    and "\<forall>(n, r) \<in> set (regions db). \<forall>e \<in> set (allEntries r). technician e \<noteq> newName"
    and "\<forall>(n, r) \<in> set (regions db).
           (\<exists>e \<in> set (allEntries r). technician e = oldName) \<longrightarrow> oldName \<in> set (technicians r)"
  shows "fst (renameTech oldName newName db) = Done \<and>
         fst (snd (openTechHistory newName (snd (renameTech oldName newName db)))) =
           fst (snd (openTechHistory oldName db)) \<and>
         fst (openTechHistory oldName (snd (renameTech oldName newName db))) = []"
proof -
  have "litresIn newName (renameTechIn oldName newName r) = litresIn oldName r"
    if "(n, r) \<in> set (regions db)" for n r
  proof (rule litresIn_renamed[OF assms(1)])
    show "\<forall>e \<in> set (allEntries r). technician e \<noteq> newName"
      using assms(2) that by blast
    show "(\<exists>e \<in> set (allEntries r). technician e = oldName) \<longrightarrow> oldName \<in> set (technicians r)"
      using assms(3) that by blast
  qed
  then have "map (\<lambda>(n, r). litresIn newName r)
           (map (\<lambda>(n, r). (n, renameTechIn oldName newName r)) (regions db))
        = map (\<lambda>(n, r). litresIn oldName r) (regions db)"
    by (auto simp: comp_def)
  then have "sum_list (map (\<lambda>(n, r). litresIn newName r)
           (map (\<lambda>(n, r). (n, renameTechIn oldName newName r)) (regions db)))
        = sum_list (map (\<lambda>(n, r). litresIn oldName r) (regions db))"
    by (rule arg_cong)
  moreover have "\<forall>(n, r) \<in> set (map (\<lambda>(n, r). (n, renameTechIn oldName newName r)) (regions db)).
      \<forall>e \<in> set (allEntries r). technician e \<noteq> oldName"
    using assms(1,3) none_left_renamed by fastforce
  ultimately show ?thesis
    using assms(1) by (simp add: renameTech_def history_litres history_empty)
qed

theorem renameTech_moves_history_witness:
  "''C'' \<noteq> ''A'' \<and>
   fst (renameTech ''A'' ''C'' storeOne) = Done \<and>
   fst (snd (openTechHistory ''C'' (snd (renameTech ''A'' ''C'' storeOne)))) =
     fst (snd (openTechHistory ''A'' storeOne)) \<and>
   fst (snd (openTechHistory ''A'' storeOne)) = 60 \<and>
   fst (openTechHistory ''A'' (snd (renameTech ''A'' ''C'' storeOne))) = []"
proof -
  have h: "''C'' \<noteq> ''A''"
    "\<forall>(n, r) \<in> set (regions storeOne). \<forall>e \<in> set (allEntries r). technician e \<noteq> ''C''"
    "\<forall>(n, r) \<in> set (regions storeOne).
           (\<exists>e \<in> set (allEntries r). technician e = ''A'') \<longrightarrow> ''A'' \<in> set (technicians r)"
    by (simp_all add: storeOne_def regionOne_def allEntries_def entryA_def)
  have t: "fst (snd (openTechHistory ''A'' storeOne)) = 60"
    by (simp add: openTechHistory_def techEntries_def sortBy_def storeOne_def regionOne_def
        entryA_def)
  from renameTech_moves_history[OF h] t h(1)
  show ?thesis by simp
qed

text \<open>
  C6 (as stated) fails on \<open>storeAB\<close>, for renaming \<open>A\<close> to \<open>B\<close>: the 67 litres of \<open>A\<close> become
  65 litres under \<open>B\<close>, which are the 60 litres of \<open>A\<close> in \<open>North\<close> merged with the 5 litres
  that \<open>B\<close> had, and the 7 litres in \<open>South\<close>, whose technician list does not have \<open>A\<close>, stay
  under the old name.
\<close>

theorem renameTech_merges_and_leaves_history:
  "fst (snd (openTechHistory ''A'' storeAB)) = 67 \<and>
   fst (exec plainView (ConfirmRename (Some (False, ''A'')) ''B'') storeAB) = Done \<and>
   fst (snd (openTechHistory ''B''
     (snd (exec plainView (ConfirmRename (Some (False, ''A'')) ''B'') storeAB)))) = 65 \<and>
   fst (openTechHistory ''A''
     (snd (exec plainView (ConfirmRename (Some (False, ''A'')) ''B'') storeAB))) =
     [(entryB\<lparr>technician := ''A'', supplied := 7\<rparr>, ''2025-01-05'', ''South'')]"
  by (simp add: openTechHistory_def techEntries_def sortBy_def storeAB_def regionOne_def
      entryA_def entryB_def orderO1_def confirmRename_def renameTech_def renameTechIn_def
      trim_def isSpace_def moveKey_def str_le_def Let_def)


subsection \<open>Dictionaries\<close>

lemma in_update: "(k', v') \<in> set (AList.update k v xs) \<Longrightarrow> (k', v') = (k, v) \<or> (k', v') \<in> set xs"
  by (induction xs) (auto split: if_splits)

lemma in_map_entry:
  "map_of xs k = Some x \<Longrightarrow> (k', v') \<in> set (AList.map_entry k f xs) \<Longrightarrow>
   (k', v') \<in> set xs \<or> (k' = k \<and> v' = f x)"
  by (induction xs) (auto split: if_splits)

lemma map_entry_absent: "map_of xs k = None \<Longrightarrow> AList.map_entry k f xs = xs"
  by (induction xs) (auto split: if_splits)

lemma in_delete: "(k', v') \<in> set (AList.delete k xs) \<Longrightarrow> (k', v') \<in> set xs \<and> k' \<noteq> k"
  by (auto simp: AList.delete_eq)

lemma allVals_Nil [simp]: "allVals Q []"
  by (simp add: allVals_def)

lemma allVals_lookup: "allVals Q xs \<Longrightarrow> map_of xs k = Some x \<Longrightarrow> Q x"
  by (auto simp: allVals_def dest!: map_of_SomeD)

lemma allVals_update: "allVals Q xs \<Longrightarrow> Q new \<Longrightarrow> allVals Q (AList.update k new xs)"
  by (auto simp: allVals_def dest!: in_update)

lemma allVals_map_entry:
  assumes "allVals Q xs" "\<And>x. map_of xs k = Some x \<Longrightarrow> Q x \<Longrightarrow> Q (f x)"
  shows "allVals Q (AList.map_entry k f xs)"
proof (cases "map_of xs k")
  case None
  then show ?thesis using assms(1) by (simp add: map_entry_absent)
next
  case (Some x)
  with assms have "Q (f x)" by (auto dest: allVals_lookup)
  with assms(1) show ?thesis
    by (auto simp: allVals_def dest!: in_map_entry[OF Some])
qed

lemma allVals_delete: "allVals Q xs \<Longrightarrow> allVals Q (AList.delete k xs)"
  by (auto simp: allVals_def dest!: in_delete)

lemma allVals_map:
  assumes "allVals Q xs" "\<And>x. Q x \<Longrightarrow> Q' (g x)"
  shows "allVals Q' (map (\<lambda>(k, v). (k, g v)) xs)"
  using assms by (auto simp: allVals_def)

lemma allVals_rendered:
  assumes "allVals Q (orders r)"
    "\<And>x. Q x \<Longrightarrow> totalLiters x \<le> suppliedTotal x \<Longrightarrow> Q (x\<lparr>status := CLOSED\<rparr>)"
  shows "allVals Q (orders (rendered v r))"
  using assms
  by (auto simp: allVals_def rendered_def renderOrders_def buildOrderCard_def Let_def)

subsection \<open>Every operation but restore keeps the status of the orders right\<close>

lemma orderSound_closed:
  "orderSound x \<Longrightarrow> totalLiters x \<le> suppliedTotal x \<Longrightarrow> orderSound (x\<lparr>status := CLOSED\<rparr>)"
  by (simp add: orderSound_def statusOk_def)

lemma ledgerStatus_rendered: "ledgerStatus r \<Longrightarrow> ledgerStatus (rendered v r)"
  by (simp add: ledgerStatus_def allVals_rendered orderSound_closed)

lemma ledgerStatus_createOrder:
  "ledgerStatus r \<Longrightarrow> 0 < litres \<Longrightarrow>
   ledgerStatus (snd (createOrder v no plate litres date today r))"
  by (auto simp: createOrder_def Let_def intro!: ledgerStatus_rendered)
     (auto simp: ledgerStatus_def orderSound_def statusOk_def intro!: allVals_update)

lemma ledgerStatus_allocateFuel: "ledgerStatus r \<Longrightarrow> ledgerStatus (snd (allocateFuel k t amt r))"
  by (auto simp: allocateFuel_def ledgerStatus_def orderSound_def statusOk_def
      split: option.splits intro!: allVals_map_entry)

lemma ledgerStatus_saveAllocEdit:
  "ledgerStatus r \<Longrightarrow> ledgerStatus (snd (saveAllocEdit v k t amt r))"
  by (auto simp: saveAllocEdit_def Let_def split: option.splits intro!: ledgerStatus_rendered)
     (auto simp: ledgerStatus_def orderSound_def statusOk_def intro!: allVals_map_entry)

lemma ledgerStatus_saveOrderDate:
  "ledgerStatus r \<Longrightarrow> ledgerStatus (snd (saveOrderDate v k date r))"
  by (auto simp: saveOrderDate_def Let_def split: option.splits intro!: ledgerStatus_rendered)
     (auto simp: ledgerStatus_def orderSound_def statusOk_def intro!: allVals_map_entry)

lemma ledgerStatus_saveOverageComment:
  "ledgerStatus r \<Longrightarrow> ledgerStatus (snd (saveOverageComment v ctx c r))"
  by (auto simp: saveOverageComment_def Let_def split: option.splits
      intro!: ledgerStatus_rendered)
     (auto simp: ledgerStatus_def orderSound_def statusOk_def intro!: allVals_map_entry)

lemma ledgerStatus_confirmClone:
  "ledgerStatus r \<Longrightarrow> ledgerStatus (snd (confirmClone v source newNo date today r))"
  by (auto simp: confirmClone_def Let_def split: option.splits intro!: ledgerStatus_rendered)
     (auto simp: ledgerStatus_def orderSound_def statusOk_def intro!: allVals_update
       dest: allVals_lookup)

lemma ledgerStatus_deleteOrder:
  "ledgerStatus r \<Longrightarrow> ledgerStatus (snd (deleteOrder v k confirm r))"
  by (auto simp: deleteOrder_def split: option.splits intro!: ledgerStatus_rendered)
     (auto simp: ledgerStatus_def list_all_iff intro!: allVals_delete elim!: allVals_map)

lemma actualAmount_pos: "capOk c \<Longrightarrow> 0 < suppInput c \<Longrightarrow> 0 < actualAmount c"
  by (auto simp: capOk_def actualAmount_def maxAllowed_def split: option.splits)

lemma midBatch_pushEntry:
  "midBatch r \<Longrightarrow> 0 < supplied e \<Longrightarrow> midBatch (pushEntry d e r)"
  by (auto simp: midBatch_def pushEntry_def intro!: allVals_map_entry)

lemma midBatch_saveCard:
  assumes "midBatch r" "capOk c"
  shows "midBatch (fst (saveCard d (r, saved, skipped) c))"
proof -
  have "midBatch (r\<lparr>orders := AList.map_entry no
          (\<lambda>x. x\<lparr>suppliedTotal := suppliedTotal x + actualAmount c\<rparr>) (orders r)\<rparr>)"
    if "map_of (orders r) no = Some ord" "status ord \<noteq> CLOSED" "0 < suppInput c" for no ord
    using assms that actualAmount_pos[of c]
    by (auto simp: midBatch_def intro!: allVals_map_entry)
  with assms show ?thesis
    by (auto simp: saveCard_def Let_def actualAmount_pos split: option.splits
        intro!: midBatch_pushEntry)
qed

lemma midBatch_foldl:
  "midBatch (fst acc) \<Longrightarrow> \<forall>c \<in> set cards. capOk c \<Longrightarrow>
   midBatch (fst (foldl (saveCard d) acc cards))"
proof (induction cards arbitrary: acc)
  case Nil
  then show ?case by simp
next
  case (Cons c cards)
  obtain r saved skipped where acc: "acc = (r, saved, skipped)" by (cases acc)
  show ?case
    using Cons.prems by (auto simp: acc intro!: Cons.IH midBatch_saveCard)
qed

lemma ledgerStatus_closeSupplied: "midBatch r \<Longrightarrow> ledgerStatus (closeSupplied r)"
  unfolding midBatch_def ledgerStatus_def closeSupplied_def
  by (auto simp: orderSound_def statusOk_def elim!: allVals_map)

lemma midBatch_ledgerStatus: "ledgerStatus r \<Longrightarrow> midBatch r"
  by (auto simp: ledgerStatus_def midBatch_def allVals_def orderSound_def statusOk_def)

lemma ledgerStatus_saveDaily:
  assumes "ledgerStatus r" "\<forall>c \<in> set cards. capOk c"
  shows "ledgerStatus (snd (saveDaily v d cards r))"
proof -
  define r0 where "r0 = (if map_of (dailyLog r) d = None
                  then r\<lparr>dailyLog := AList.update d [] (dailyLog r)\<rparr> else r)"
  have r0: "ledgerStatus r0"
    using assms(1) by (auto simp: r0_def ledgerStatus_def intro!: allVals_update)
  then have "midBatch (fst (foldl (saveCard d) (r0, 0, 0) cards))"
    using assms(2) by (intro midBatch_foldl) (simp_all add: midBatch_ledgerStatus)
  then have "ledgerStatus (rendered v (closeSupplied (fst (foldl (saveCard d) (r0, 0, 0) cards))))"
    by (intro ledgerStatus_rendered ledgerStatus_closeSupplied)
  then show ?thesis
    using assms(1) r0
    by (auto simp: saveDaily_def Let_def r0_def[symmetric] split: prod.splits)
qed

lemma orderSound_resupply: "orderSound x \<Longrightarrow> orderSound (resupply diff x)"
  by (auto simp: orderSound_def statusOk_def resupply_def Let_def)

lemma orderSound_unsupply: "orderSound x \<Longrightarrow> 0 < amount \<Longrightarrow> orderSound (unsupply amount x)"
  by (auto simp: orderSound_def statusOk_def unsupply_def Let_def)

lemma ledgerStatus_applyEdit:
  assumes "ledgerStatus r" "map_of (dailyLog r) date = Some entries" "0 < newSupply"
  shows "ledgerStatus (applyEdit date idx entries newSupply newComment r)"
proof -
  have "list_all (\<lambda>e. 0 < supplied e)
      (entries[idx := editedEntry (entries ! idx) newSupply newComment])"
    using assms
    by (auto simp: ledgerStatus_def list_all_iff editedEntry_def
        dest!: allVals_lookup set_update_subset_insert[THEN subsetD])
  with assms(1) show ?thesis
    by (auto simp: applyEdit_def Let_def ledgerStatus_def orderSound_resupply
        split: option.splits intro!: allVals_update allVals_map_entry)
qed

lemma ledgerStatus_saveEditEntry:
  "ledgerStatus r \<Longrightarrow> ledgerStatus (snd (saveEditEntry v ctx newSupply c r))"
  by (auto simp: saveEditEntry_def Let_def split: option.splits
      intro!: ledgerStatus_rendered ledgerStatus_applyEdit)

lemma ledgerStatus_applyDelete:
  assumes "ledgerStatus r" "map_of (dailyLog r) date = Some entries" "idx < length entries"
  shows "ledgerStatus (applyDelete date idx entries r)"
proof -
  have pos: "list_all (\<lambda>e. 0 < supplied e) entries"
    using assms by (auto simp: ledgerStatus_def dest: allVals_lookup)
  have one: "0 < supplied (entries ! idx)"
    using pos assms(3) by (simp add: list_all_length)
  have rest: "list_all (\<lambda>e. 0 < supplied e) (splice1 idx entries)"
    using pos by (auto simp: list_all_iff splice1_def dest: in_set_takeD in_set_dropD)
  from assms(1) one rest show ?thesis
    by (auto simp: applyDelete_def Let_def ledgerStatus_def orderSound_unsupply
        split: option.splits intro!: allVals_update allVals_map_entry allVals_delete)
qed

lemma ledgerStatus_deleteDailyEntry:
  "ledgerStatus r \<Longrightarrow> ledgerStatus (snd (deleteDailyEntry v date idx confirm r))"
  by (auto simp: deleteDailyEntry_def Let_def split: option.splits
      intro!: ledgerStatus_rendered ledgerStatus_applyDelete)

lemma ledgerStatus_addTechnician:
  "ledgerStatus r \<Longrightarrow> ledgerStatus (snd (addTechnician name plate r))"
  by (auto simp: addTechnician_def Let_def ledgerStatus_def)

lemma ledgerStatus_deleteTech:
  "ledgerStatus r \<Longrightarrow> ledgerStatus (snd (deleteTech name confirm r))"
  by (auto simp: deleteTech_def ledgerStatus_def orderSound_def statusOk_def
      elim!: allVals_map)

lemma ledgerStatus_renameTechIn:
  "ledgerStatus r \<Longrightarrow> ledgerStatus (renameTechIn oldName newName r)"
  by (auto simp: renameTechIn_def ledgerStatus_def orderSound_def statusOk_def list_all_iff
      elim!: allVals_map)

text \<open>From the current region to the store.\<close>

lemma everyRegion_allVals: "everyRegion P db = allVals P (regions db)"
  by (simp add: everyRegion_def allVals_def)

lemma everyRegion_onCurrent:
  assumes "everyRegion P db" "\<And>r. P r \<Longrightarrow> P (snd (f r))"
  shows "everyRegion P (snd (onCurrent f db))"
proof (cases "map_of (regions db) (currentRegion db)")
  case None
  then show ?thesis using assms(1) by (simp add: onCurrent_def)
next
  case (Some r)
  with assms(1) have "P r"
    by (auto simp: everyRegion_allVals dest: allVals_lookup)
  then have "P (snd (f r))" by (rule assms(2))
  with assms(1) Some show ?thesis
    by (auto simp: everyRegion_allVals onCurrent_def split: prod.splits
        intro!: allVals_update)
qed

lemma everyRegion_changeRegion:
  "everyRegion P db \<Longrightarrow> everyRegion P (snd (changeRegion selected db))"
  by (simp add: everyRegion_def changeRegion_def)

lemma everyRegion_addRegion:
  assumes "everyRegion P db"
    "P \<lparr>technicians = [], technicianPlates = [], orders = [], dailyLog = []\<rparr>"
  shows "everyRegion P (snd (addRegion name db))"
  using assms by (auto simp: everyRegion_allVals addRegion_def Let_def intro!: allVals_update)

lemma everyRegion_deleteRegion:
  "everyRegion P db \<Longrightarrow> everyRegion P (snd (deleteRegion name confirm db))"
  by (auto simp: everyRegion_allVals deleteRegion_def Let_def split: option.splits
      intro!: allVals_delete)

lemma everyRegion_confirmRename:
  assumes "everyRegion P db" "\<And>oldName newName r. P r \<Longrightarrow> P (renameTechIn oldName newName r)"
  shows "everyRegion P (snd (confirmRename ctx name db))"
  using assms
  by (auto simp: everyRegion_allVals confirmRename_def renameRegion_def renameTech_def Let_def
      split: option.splits intro!: allVals_delete allVals_update elim!: allVals_map
      dest: allVals_lookup)

lemma ledgerStatus_empty:
  "ledgerStatus \<lparr>technicians = [], technicianPlates = [], orders = [], dailyLog = []\<rparr>"
  by (simp add: ledgerStatus_def)

lemma ledgerStatus_exec:
  assumes "everyRegion ledgerStatus db" "\<not> isRestore cmd"
    "\<forall>l. createdLitres cmd = Some l \<longrightarrow> 0 < l" "\<forall>c \<in> set (batchCards cmd). capOk c"
  shows "everyRegion ledgerStatus (snd (exec v cmd db))"
  using assms
  by (cases cmd)
    (simp_all add: everyRegion_onCurrent everyRegion_changeRegion everyRegion_addRegion
      everyRegion_deleteRegion everyRegion_confirmRename
      ledgerStatus_createOrder ledgerStatus_allocateFuel ledgerStatus_saveAllocEdit
      ledgerStatus_saveOrderDate ledgerStatus_saveOverageComment ledgerStatus_confirmClone
      ledgerStatus_deleteOrder ledgerStatus_saveDaily ledgerStatus_saveEditEntry
      ledgerStatus_deleteDailyEntry ledgerStatus_addTechnician ledgerStatus_deleteTech
      ledgerStatus_renameTechIn ledgerStatus_empty)

lemma statusInv_ledgerStatus: "everyRegion ledgerStatus db \<Longrightarrow> statusInv db"
  by (auto simp: everyRegion_def ledgerStatus_def statusInv_def allVals_def orderSound_def
      statusOk_def)

text \<open>The caps that the form computes are not negative.\<close>

lemma capOk_updateOrderDetails:
  "orderSound ord \<Longrightarrow> status ord = OPEN \<Longrightarrow> capOk (updateOrderDetails c ord tech r)"
  by (auto simp: capOk_def updateOrderDetails_def orderSound_def statusOk_def Let_def)

lemma capOk_techSelected:
  assumes "ledgerStatus r" "capOk c"
  shows "capOk (techSelected c r)"
proof -
  have "capOk (updateOrderDetails c' ord tech r)"
    if "assignedOrders tech r = [ord]" for c' ord tech
  proof -
    from that have "ord \<in> set (assignedOrders tech r)" by simp
    then have "ord \<in> snd ` set (orders r)" "status ord = OPEN"
      by (auto simp: assignedOrders_def)
    with assms(1) show ?thesis
      by (auto simp: ledgerStatus_def allVals_def intro!: capOk_updateOrderDetails)
  qed
  with assms(2) show ?thesis
    by (auto simp: techSelected_def Let_def capOk_def split: list.splits)
qed

text \<open>
  C1 (as amended). On a store in which every order has the right status, a supplied total that
  is not negative and positive total litres, and every daily entry a positive amount, every
  operation other than restore leaves the status of every order of every region \<open>CLOSED\<close> if
  and only if its supplied total has reached its total litres, provided that a new order is
  created with positive litres and that the caps on the cards of a daily batch are not
  negative.
\<close>

theorem status_follows_supplied:
  assumes "everyRegion ledgerStatus db" "\<not> isRestore cmd"
    "\<forall>l. createdLitres cmd = Some l \<longrightarrow> 0 < l" "\<forall>c \<in> set (batchCards cmd). capOk c"
  shows "statusInv (snd (exec v cmd db))"
  using assms by (intro statusInv_ledgerStatus ledgerStatus_exec)

theorem status_follows_supplied_witness:
  "everyRegion ledgerStatus storeOne \<and> \<not> isRestore (SaveDaily ''2025-01-03'' [cardA70]) \<and>
   createdLitres (SaveDaily ''2025-01-03'' [cardA70]) = None \<and> capOk cardA70 \<and>
   statusInv (snd (exec plainView (SaveDaily ''2025-01-03'' [cardA70]) storeOne))"
proof -
  have h: "everyRegion ledgerStatus storeOne"
    by (simp add: everyRegion_def ledgerStatus_def allVals_def orderSound_def statusOk_def
        storeOne_def regionOne_def orderO1_def entryA_def)
  have c: "capOk cardA70"
    by (simp add: capOk_def cardA70_def freshCard_def techSelected_def assignedOrders_def
        updateOrderDetails_def usedSoFar_def allEntries_def regionOne_def orderO1_def
        entryA_def)
  from status_follows_supplied[OF h, of "SaveDaily ''2025-01-03'' [cardA70]" plainView] c h
  show ?thesis by simp
qed

text \<open>
  C1 (as stated) fails for \<open>createOrder\<close>, which does not check the litres: an order created
  without litres while the filter of the orders view hides it stays \<open>OPEN\<close> with a supplied
  total (0) that has reached its total litres (0).
\<close>

theorem createOrder_without_litres_stays_open:
  "everyRegion ledgerStatus DB_DEFAULT \<and> statusInv DB_DEFAULT \<and>
   \<not> statusInv (snd (exec laterView
       (CreateOrder ''O2'' ''P2'' 0 ''2025-01-01'' ''2025-01-01'') DB_DEFAULT))"
  by (simp add: everyRegion_def ledgerStatus_def statusInv_def
      laterView_def plainView_def DB_DEFAULT_def onCurrent_def
      createOrder_def trim_def isSpace_def rendered_def renderOrders_def shown_def
      str_le_def buildOrderCard_def Let_def)


subsection \<open>Every operation but restore keeps the allocations within the total litres\<close>

lemma sum_others:
  "distinct (map fst al) \<Longrightarrow>
   sum_list (map snd al) = sum_list (map snd (filter (\<lambda>(t, a). t \<noteq> k) al)) + valueAt al k"
proof (induction al)
  case Nil
  then show ?case by (simp add: valueAt_def)
next
  case (Cons p al)
  obtain t a where p: "p = (t, a)" by (cases p)
  show ?case
  proof (cases "t = k")
    case True
    with Cons.prems p have "map_of al k = None"
      by (auto simp: map_of_eq_None_iff)
    then have "filter (\<lambda>(t, a). t \<noteq> k) al = al"
      by (induction al) (auto split: if_splits)
    with True p show ?thesis by (simp add: valueAt_def)
  next
    case False
    with Cons p show ?thesis by (simp add: valueAt_def)
  qed
qed

lemma sum_update:
  "distinct (map fst al) \<Longrightarrow>
   sum_list (map snd (AList.update k v al)) =
   sum_list (map snd (filter (\<lambda>(t, a). t \<noteq> k) al)) + (v :: int)"
proof (induction al)
  case Nil
  then show ?case by simp
next
  case (Cons p al)
  obtain t a where p: "p = (t, a)" by (cases p)
  show ?case
  proof (cases "t = k")
    case True
    with Cons.prems p have "map_of al k = None"
      by (auto simp: map_of_eq_None_iff)
    then have "filter (\<lambda>(t, a). t \<noteq> k) al = al"
      by (induction al) (auto split: if_splits)
    with True p show ?thesis by simp
  next
    case False
    with Cons p show ?thesis by simp
  qed
qed

lemma sum_delete:
  "sum_list (map snd (AList.delete k al)) = sum_list (map snd (filter (\<lambda>(t, a). t \<noteq> k) al))"
  by (induction al) (auto simp: AList.delete_eq)

lemma valueAt_nonneg: "allVals (\<lambda>a. 0 \<le> a) al \<Longrightarrow> 0 \<le> valueAt al k"
  by (auto simp: valueAt_def split: option.splits dest: allVals_lookup)

lemma allocSound_closed: "allocSound x \<Longrightarrow> allocSound (x\<lparr>status := CLOSED\<rparr>)"
  by (simp add: allocSound_def allocated_def)

lemma ledgerAlloc_rendered: "ledgerAlloc r \<Longrightarrow> ledgerAlloc (rendered v r)"
  by (simp add: ledgerAlloc_def allVals_rendered allocSound_closed)

lemma ledgerAlloc_createOrder:
  "ledgerAlloc r \<Longrightarrow> 0 \<le> litres \<Longrightarrow>
   ledgerAlloc (snd (createOrder v no plate litres date today r))"
  by (auto simp: createOrder_def Let_def intro!: ledgerAlloc_rendered)
     (auto simp: ledgerAlloc_def allocSound_def allocated_def intro!: allVals_update)

lemma allocSound_allocate:
  assumes "allocSound x" "0 \<le> amt" "allocated x + amt \<le> totalLiters x"
    "map_of (allocations x) t = None \<or> map_of (allocations x) t = Some 0"
  shows "allocSound (x\<lparr>allocations := AList.update t amt (allocations x)\<rparr>)"
proof -
  from assms(4) have "valueAt (allocations x) t = 0"
    by (auto simp: valueAt_def)
  with assms(1) have "sum_list (map snd (AList.update t amt (allocations x))) = allocated x + amt"
    using sum_others[of "allocations x" t] sum_update[of "allocations x" t amt]
    by (simp add: allocSound_def allocated_def)
  with assms show ?thesis
    by (auto simp: allocSound_def allocated_def AList.distinct_update intro!: allVals_update)
qed

lemma ledgerAlloc_allocateFuel:
  assumes "ledgerAlloc r" "0 \<le> amt"
  shows "ledgerAlloc (snd (allocateFuel k t amt r))"
proof -
  have "allocSound (x\<lparr>allocations := AList.update t amt (allocations x)\<rparr>)"
    if "map_of (orders r) k = Some ord"
      "\<not> (case map_of (allocations ord) t of None \<Rightarrow> False | Some a \<Rightarrow> a \<noteq> 0)"
      "\<not> totalLiters ord < allocated ord + amt" "map_of (orders r) k = Some x" "allocSound x"
    for ord x
    using that assms(2)
    by (intro allocSound_allocate) (auto split: option.splits)
  with assms(1) show ?thesis
    by (auto simp: allocateFuel_def ledgerAlloc_def split: option.splits
        intro!: allVals_map_entry)
qed

lemma allocSound_edit:
  assumes "allocSound x" "0 \<le> newAmt"
    "sum_list (map snd (filter (\<lambda>(t, a). t \<noteq> tech) (allocations x))) + newAmt \<le> totalLiters x"
  shows "allocSound (x\<lparr>allocations := AList.update tech newAmt (allocations x)\<rparr>)"
  using assms sum_update[of "allocations x" tech newAmt]
  by (auto simp: allocSound_def allocated_def AList.distinct_update intro!: allVals_update)

lemma ledgerAlloc_saveAllocEdit:
  assumes "ledgerAlloc r"
  shows "ledgerAlloc (snd (saveAllocEdit v k tech amt r))"
proof -
  have "allocSound (x\<lparr>allocations := AList.update tech newAmt (allocations x)\<rparr>)"
    if "map_of (orders r) k = Some ord" "\<not> newAmt < 0"
      "\<not> totalLiters ord <
         sum_list (map snd (filter (\<lambda>(t, a). t \<noteq> tech) (allocations ord))) + newAmt"
      "map_of (orders r) k = Some x" "allocSound x"
    for ord x newAmt
    using that by (intro allocSound_edit) auto
  with assms show ?thesis
    by (auto simp: saveAllocEdit_def Let_def split: option.splits intro!: ledgerAlloc_rendered)
       (auto simp: ledgerAlloc_def intro!: allVals_map_entry)
qed

lemma ledgerAlloc_saveOrderDate:
  "ledgerAlloc r \<Longrightarrow> ledgerAlloc (snd (saveOrderDate v k date r))"
  by (auto simp: saveOrderDate_def Let_def split: option.splits intro!: ledgerAlloc_rendered)
     (auto simp: ledgerAlloc_def allocSound_def allocated_def intro!: allVals_map_entry)

lemma ledgerAlloc_saveOverageComment:
  "ledgerAlloc r \<Longrightarrow> ledgerAlloc (snd (saveOverageComment v ctx c r))"
  by (auto simp: saveOverageComment_def Let_def split: option.splits
      intro!: ledgerAlloc_rendered)
     (auto simp: ledgerAlloc_def allocSound_def allocated_def intro!: allVals_map_entry)

lemma ledgerAlloc_confirmClone:
  "ledgerAlloc r \<Longrightarrow> ledgerAlloc (snd (confirmClone v source newNo date today r))"
  by (auto simp: confirmClone_def Let_def split: option.splits intro!: ledgerAlloc_rendered)
     (auto simp: ledgerAlloc_def allocSound_def allocated_def intro!: allVals_update
       dest: allVals_lookup)

lemma ledgerAlloc_deleteOrder:
  "ledgerAlloc r \<Longrightarrow> ledgerAlloc (snd (deleteOrder v k confirm r))"
  by (auto simp: deleteOrder_def split: option.splits intro!: ledgerAlloc_rendered)
     (auto simp: ledgerAlloc_def intro!: allVals_delete)

lemma ledgerAlloc_saveCard:
  "ledgerAlloc (fst acc) \<Longrightarrow> ledgerAlloc (fst (saveCard d acc c))"
  by (cases acc)
    (auto simp: saveCard_def Let_def pushEntry_def ledgerAlloc_def allocSound_def
      allocated_def split: option.splits intro!: allVals_map_entry)

lemma ledgerAlloc_foldl:
  "ledgerAlloc (fst acc) \<Longrightarrow> ledgerAlloc (fst (foldl (saveCard d) acc cards))"
  by (induction cards arbitrary: acc) (auto simp: ledgerAlloc_saveCard)

lemma ledgerAlloc_closeSupplied: "ledgerAlloc r \<Longrightarrow> ledgerAlloc (closeSupplied r)"
  by (auto simp: ledgerAlloc_def closeSupplied_def allocSound_def allocated_def
      elim!: allVals_map)

lemma ledgerAlloc_saveDaily:
  assumes "ledgerAlloc r"
  shows "ledgerAlloc (snd (saveDaily v d cards r))"
proof -
  define r0 where "r0 = (if map_of (dailyLog r) d = None
                  then r\<lparr>dailyLog := AList.update d [] (dailyLog r)\<rparr> else r)"
  have r0: "ledgerAlloc r0"
    using assms by (auto simp: r0_def ledgerAlloc_def)
  then have "ledgerAlloc (fst (foldl (saveCard d) (r0, 0, 0) cards))"
    by (intro ledgerAlloc_foldl) simp
  then have "ledgerAlloc (rendered v (closeSupplied (fst (foldl (saveCard d) (r0, 0, 0) cards))))"
    by (intro ledgerAlloc_rendered ledgerAlloc_closeSupplied)
  then show ?thesis
    using assms r0
    by (auto simp: saveDaily_def Let_def r0_def[symmetric] split: prod.splits)
qed

lemma allocSound_resupply: "allocSound x \<Longrightarrow> allocSound (resupply diff x)"
  by (auto simp: allocSound_def allocated_def resupply_def Let_def)

lemma allocSound_unsupply: "allocSound x \<Longrightarrow> allocSound (unsupply amount x)"
  by (auto simp: allocSound_def allocated_def unsupply_def Let_def)

lemma ledgerAlloc_saveEditEntry:
  "ledgerAlloc r \<Longrightarrow> ledgerAlloc (snd (saveEditEntry v ctx newSupply c r))"
  by (auto simp: saveEditEntry_def Let_def split: option.splits intro!: ledgerAlloc_rendered)
     (auto simp: applyEdit_def Let_def ledgerAlloc_def allocSound_resupply
       split: option.splits intro!: allVals_map_entry)

lemma ledgerAlloc_deleteDailyEntry:
  "ledgerAlloc r \<Longrightarrow> ledgerAlloc (snd (deleteDailyEntry v date idx confirm r))"
  by (auto simp: deleteDailyEntry_def Let_def split: option.splits
      intro!: ledgerAlloc_rendered)
     (auto simp: applyDelete_def Let_def ledgerAlloc_def allocSound_unsupply
       split: option.splits intro!: allVals_map_entry)

lemma ledgerAlloc_addTechnician:
  "ledgerAlloc r \<Longrightarrow> ledgerAlloc (snd (addTechnician name plate r))"
  by (auto simp: addTechnician_def Let_def ledgerAlloc_def)

lemma sum_others_le:
  assumes "distinct (map fst al)" "allVals (\<lambda>a. 0 \<le> a) al"
  shows "sum_list (map snd (filter (\<lambda>(t, a). t \<noteq> k) al)) \<le>
         sum_list (map snd (al :: (string \<times> int) list))"
  using sum_others[OF assms(1), of k] valueAt_nonneg[OF assms(2), of k] by simp

lemma allocSound_delete:
  assumes "allocSound x"
  shows "allocSound (x\<lparr>allocations := AList.delete name (allocations x)\<rparr>)"
  using assms sum_others_le[of "allocations x" name]
  by (auto simp: allocSound_def allocated_def sum_delete AList.distinct_delete
      intro!: allVals_delete)

lemma ledgerAlloc_deleteTech:
  "ledgerAlloc r \<Longrightarrow> ledgerAlloc (snd (deleteTech name confirm r))"
  by (auto simp: deleteTech_def ledgerAlloc_def allocSound_delete elim!: allVals_map)

lemma allocSound_moveKey:
  assumes "allocSound x"
  shows "allocSound (x\<lparr>allocations := moveKey oldName newName (allocations x),
                       overageComments := cs\<rparr>)"
proof (cases "map_of (allocations x) oldName")
  case None
  with assms show ?thesis
    by (simp add: moveKey_def allocSound_def allocated_def)
next
  case (Some a)
  let ?al = "allocations x"
  let ?ys = "AList.update newName a ?al"
  have d: "distinct (map fst ?al)" and n: "allVals (\<lambda>a. 0 \<le> a) ?al"
    using assms by (simp_all add: allocSound_def)
  have a: "0 \<le> a"
    using n Some by (auto dest: allVals_lookup)
  have dy: "distinct (map fst ?ys)" and ny: "allVals (\<lambda>a. 0 \<le> a) ?ys"
    using d n a by (auto simp: AList.distinct_update intro!: allVals_update)
  have "valueAt ?ys oldName = a"
    using Some by (simp add: valueAt_def AList.update_conv')
  then have "sum_list (map snd (AList.delete oldName ?ys)) = sum_list (map snd ?ys) - a"
    using sum_others[OF dy, of oldName] by (simp add: sum_delete)
  also have "sum_list (map snd ?ys) =
      sum_list (map snd (filter (\<lambda>(t, a). t \<noteq> newName) ?al)) + a"
    by (rule sum_update[OF d])
  finally have "sum_list (map snd (AList.delete oldName ?ys)) \<le> sum_list (map snd ?al)"
    using sum_others_le[OF d n, of newName] by simp
  with assms dy ny Some show ?thesis
    by (auto simp: moveKey_def allocSound_def allocated_def AList.distinct_delete
        intro!: allVals_delete)
qed

lemma ledgerAlloc_renameTechIn:
  "ledgerAlloc r \<Longrightarrow> ledgerAlloc (renameTechIn oldName newName r)"
  by (auto simp: renameTechIn_def ledgerAlloc_def allocSound_moveKey elim!: allVals_map)

lemma ledgerAlloc_empty:
  "ledgerAlloc \<lparr>technicians = [], technicianPlates = [], orders = [], dailyLog = []\<rparr>"
  by (simp add: ledgerAlloc_def)

lemma ledgerAlloc_exec:
  assumes "everyRegion ledgerAlloc db" "\<not> isRestore cmd"
    "\<forall>l. createdLitres cmd = Some l \<longrightarrow> 0 \<le> l"
    "\<forall>a. allocatedAmount cmd = Some a \<longrightarrow> 0 \<le> a"
  shows "everyRegion ledgerAlloc (snd (exec v cmd db))"
  using assms
  by (cases cmd)
    (simp_all add: everyRegion_onCurrent everyRegion_changeRegion everyRegion_addRegion
      everyRegion_deleteRegion everyRegion_confirmRename
      ledgerAlloc_createOrder ledgerAlloc_allocateFuel ledgerAlloc_saveAllocEdit
      ledgerAlloc_saveOrderDate ledgerAlloc_saveOverageComment ledgerAlloc_confirmClone
      ledgerAlloc_deleteOrder ledgerAlloc_saveDaily ledgerAlloc_saveEditEntry
      ledgerAlloc_deleteDailyEntry ledgerAlloc_addTechnician ledgerAlloc_deleteTech
      ledgerAlloc_renameTechIn ledgerAlloc_empty)

lemma allocInv_ledgerAlloc: "everyRegion ledgerAlloc db \<Longrightarrow> allocInv db"
  by (auto simp: everyRegion_def ledgerAlloc_def allocInv_def allVals_def allocSound_def
      allocated_def)

text \<open>
  C3 (as amended). On a store in which the allocations of every order sum to at most its total
  litres, with one entry per technician and no negative amount, after every operation other
  than restore the allocations of every order of every region sum to at most its total
  litres, provided that all the litres, those of the store and those that the operation
  brings in, are whole numbers below \<open>2 ^ 53\<close>, that a new order is created with litres that
  are not negative, that no negative amount is allocated, and that no name that the
  operation looks up is the name of a member of \<open>Object.prototype\<close>. \<open>allocateFuel\<close> and
  \<open>saveAllocEdit\<close> check the bound themselves; on these numbers the sums that they form are
  exact or beyond every total. With fractions of a litre the sum that is checked is a
  rounded one and the allocations that are stored can exceed the total litres; and renaming
  a technician with an inherited name puts a function among the allocations.
\<close>

theorem allocations_within_total:
  assumes "everyRegion ledgerAlloc db" "\<not> isRestore cmd"
    "\<forall>l. createdLitres cmd = Some l \<longrightarrow> 0 \<le> l"
    "\<forall>a. allocatedAmount cmd = Some a \<longrightarrow> 0 \<le> a"
    "everyRegion litresSafe db" "\<forall>x \<in> set (litresRead cmd). safeInteger x"
    "\<forall>k \<in> set (namesRead cmd). \<not> inherited k"
  shows "allocInv (snd (exec v cmd db))"
  using assms(1-4) by (intro allocInv_ledgerAlloc ledgerAlloc_exec)

theorem allocations_within_total_witness:
  "everyRegion ledgerAlloc storeOne \<and> \<not> isRestore (AllocateFuel ''O1'' ''B'' 40) \<and>
   createdLitres (AllocateFuel ''O1'' ''B'' 40) = None \<and>
   allocatedAmount (AllocateFuel ''O1'' ''B'' 40) = Some 40 \<and> (0::int) \<le> 40 \<and>
   everyRegion litresSafe storeOne \<and>
   litresRead (AllocateFuel ''O1'' ''B'' 40) = [40] \<and> safeInteger 40 \<and>
   namesRead (AllocateFuel ''O1'' ''B'' 40) = [''O1'', ''B''] \<and>
   \<not> inherited ''O1'' \<and> \<not> inherited ''B'' \<and>
   fst (exec plainView (AllocateFuel ''O1'' ''B'' 40) storeOne) = Done \<and>
   allocInv (snd (exec plainView (AllocateFuel ''O1'' ''B'' 40) storeOne))"
proof -
  have h: "everyRegion ledgerAlloc storeOne"
    by (simp add: everyRegion_def ledgerAlloc_def allVals_def allocSound_def allocated_def
        storeOne_def regionOne_def orderO1_def)
  have d: "fst (exec plainView (AllocateFuel ''O1'' ''B'' 40) storeOne) = Done"
    by (simp add: onCurrent_def allocateFuel_def allocated_def storeOne_def regionOne_def
        orderO1_def)
  have s: "everyRegion litresSafe storeOne" "safeInteger 40"
    by (simp_all add: everyRegion_def litresSafe_def safeInteger_def allVals_def storeOne_def
        regionOne_def orderO1_def entryA_def)
  have n: "\<not> inherited ''O1''" "\<not> inherited ''B''"
    by (simp_all add: inherited_def)
  from allocations_within_total[OF h, of "AllocateFuel ''O1'' ''B'' 40" plainView] h d s n
  show ?thesis by simp
qed

text \<open>
  C3 (as stated) fails where nothing checks the sign of a number: an order created with
  negative litres has no allocation and yet more than its total; and after a negative amount
  was allocated to \<open>A\<close> and 150 litres to \<open>B\<close> on an order of 100 litres, removing technician
  \<open>A\<close> leaves 150 litres allocated.
\<close>

theorem negative_litres_or_amounts_break_the_bound:
  "everyRegion ledgerAlloc DB_DEFAULT \<and> allocInv DB_DEFAULT \<and>
   \<not> allocInv (snd (exec plainView
       (CreateOrder ''O3'' ''P3'' (- 5) ''2025-01-01'' ''2025-01-01'') DB_DEFAULT)) \<and>
   everyRegion ledgerAlloc storePlain \<and>
   allocInv (snd (exec plainView (AllocateFuel ''O1'' ''B'' 150)
      (snd (exec plainView (AllocateFuel ''O1'' ''A'' (- 50)) storePlain)))) \<and>
   \<not> allocInv (snd (exec plainView (DeleteTech ''A'' True)
      (snd (exec plainView (AllocateFuel ''O1'' ''B'' 150)
        (snd (exec plainView (AllocateFuel ''O1'' ''A'' (- 50)) storePlain))))))"
  by (simp add: storePlain_def regionOne_def orderO1_def allocateFuel_def deleteTech_def
      allocated_def allVals_def allocSound_def everyRegion_def ledgerAlloc_def allocInv_def
      plainView_def DB_DEFAULT_def onCurrent_def
      createOrder_def trim_def isSpace_def rendered_def renderOrders_def shown_def
      str_le_def buildOrderCard_def Let_def)


subsection \<open>Every operation but restore keeps the supplied totals equal to the log\<close>

lemma suppliedOn_logSum: "suppliedOn no r = logSum no (dailyLog r)"
proof -
  have "sum_list (map supplied (filter (\<lambda>e. entryOrderNo e = Some no) es)) =
        sum_list (map (contrib no) es)" for es
    by (induction es) (auto simp: contrib_def)
  then show ?thesis
    by (simp add: suppliedOn_def logSum_def allEntries_def)
qed

text \<open>The sums of the log under the operations on the log.\<close>

lemma logSum_Cons [simp]: "logSum no ((d, es) # dlog) = amountFor no es + logSum no dlog"
  by (simp add: logSum_def amountFor_def)

lemma logSum_Nil [simp]: "logSum no [] = 0"
  by (simp add: logSum_def)

lemma logSum_update_absent:
  "map_of dlog d = None \<Longrightarrow> logSum no (AList.update d es dlog) = logSum no dlog + amountFor no es"
  by (induction dlog) (auto split: if_splits)

lemma logSum_update_present:
  "map_of dlog d = Some old \<Longrightarrow>
   logSum no (AList.update d es dlog) = logSum no dlog - amountFor no old + amountFor no es"
  by (induction dlog) (auto split: if_splits)

lemma logSum_map_entry:
  "map_of dlog d = Some old \<Longrightarrow>
   logSum no (AList.map_entry d f dlog) = logSum no dlog - amountFor no old + amountFor no (f old)"
  by (induction dlog) (auto split: if_splits)

lemma delete_absent: "map_of xs k = None \<Longrightarrow> AList.delete k xs = xs"
  by (induction xs) (auto split: if_splits)

lemma logSum_delete:
  "distinct (keysOf dlog) \<Longrightarrow> map_of dlog d = Some old \<Longrightarrow>
   logSum no (AList.delete d dlog) = logSum no dlog - amountFor no old"
proof (induction dlog)
  case Nil
  then show ?case by simp
next
  case (Cons p dlog)
  obtain d' es where p: "p = (d', es)" by (cases p)
  show ?case
  proof (cases "d' = d")
    case True
    with Cons.prems p have "map_of dlog d = None"
      by (auto simp: map_of_eq_None_iff keysOf_def)
    with True p Cons.prems show ?thesis
      by (simp add: delete_absent)
  next
    case False
    with Cons p show ?thesis by (simp add: keysOf_def)
  qed
qed

lemma logSum_map:
  "(\<And>es. amountFor no (g es) = amountFor no es) \<Longrightarrow>
   logSum no (map (\<lambda>(d, es). (d, g es)) dlog) = logSum no dlog"
  by (induction dlog) auto

lemma amountFor_append [simp]: "amountFor no (es @ fs) = amountFor no es + amountFor no fs"
  by (simp add: amountFor_def)

lemma amountFor_Nil [simp]: "amountFor no [] = 0"
  by (simp add: amountFor_def)

lemma amountFor_Cons [simp]: "amountFor no (e # es) = contrib no e + amountFor no es"
  by (simp add: amountFor_def)

lemma amountFor_single: "amountFor no [e] = contrib no e"
  by (simp add: amountFor_def)

lemma amountFor_list_update:
  "idx < length es \<Longrightarrow>
   amountFor no (es[idx := e]) = amountFor no es - contrib no (es ! idx) + contrib no e"
proof -
  assume i: "idx < length es"
  have "amountFor no es = amountFor no (take idx es @ [es ! idx] @ drop (Suc idx) es)"
    using i by (simp add: id_take_nth_drop[symmetric])
  moreover have "amountFor no (es[idx := e]) =
      amountFor no (take idx es @ [e] @ drop (Suc idx) es)"
    using i by (simp add: upd_conv_take_nth_drop)
  ultimately show ?thesis by simp
qed

lemma amountFor_splice1:
  "idx < length es \<Longrightarrow> amountFor no (splice1 idx es) = amountFor no es - contrib no (es ! idx)"
proof -
  assume i: "idx < length es"
  have "amountFor no es = amountFor no (take idx es @ [es ! idx] @ drop (Suc idx) es)"
    using i by (simp add: id_take_nth_drop[symmetric])
  then show ?thesis by (simp add: splice1_def)
qed

lemma amountFor_filter_other:
  "no \<noteq> k \<Longrightarrow> amountFor no (filter (\<lambda>e. entryOrderNo e \<noteq> Some k) es) = amountFor no es"
  by (induction es) (auto simp: amountFor_def contrib_def)

lemma amountFor_renamed:
  "amountFor no (map (\<lambda>e. if technician e = oldName then e\<lparr>technician := newName\<rparr> else e) es)
   = amountFor no es"
  by (induction es) (auto simp: amountFor_def contrib_def)

lemma amountFor_unreferenced:
  "list_all (entryWf keys) es \<Longrightarrow> no \<notin> keys \<Longrightarrow> amountFor no es = 0"
  by (induction es) (auto simp: amountFor_def contrib_def entryWf_def)

lemma logSum_unreferenced:
  "allVals (list_all (entryWf keys)) dlog \<Longrightarrow> no \<notin> keys \<Longrightarrow> logSum no dlog = 0"
  by (induction dlog) (auto simp: allVals_def amountFor_unreferenced)

lemma amountFor_nonneg: "list_all (entryWf keys) es \<Longrightarrow> 0 \<le> amountFor no es"
  by (induction es) (auto simp: amountFor_def contrib_def entryWf_def)

lemma logSum_nonneg: "allVals (list_all (entryWf keys)) dlog \<Longrightarrow> 0 \<le> logSum no dlog"
  by (induction dlog) (auto simp: allVals_def intro!: add_nonneg_nonneg amountFor_nonneg)

text \<open>The totals under the operations on the orders.\<close>

lemma totalsMatch_update:
  "totalsMatch ords dlog \<Longrightarrow> suppliedTotal new = logSum k dlog \<Longrightarrow>
   totalsMatch (AList.update k new ords) dlog"
  by (auto simp: totalsMatch_def dest!: in_update)

lemma totalsMatch_map_entry:
  assumes "totalsMatch ords dlog" "\<And>x. suppliedTotal (f x) = suppliedTotal x"
  shows "totalsMatch (AList.map_entry k f ords) dlog"
proof (cases "map_of ords k")
  case None
  with assms(1) show ?thesis by (simp add: map_entry_absent)
next
  case (Some x)
  then have "(k, x) \<in> set ords" by (rule map_of_SomeD)
  with assms show ?thesis
    by (fastforce simp: totalsMatch_def dest!: in_map_entry[OF Some])
qed

lemma totalsMatch_map:
  assumes "totalsMatch ords dlog" "\<And>x. suppliedTotal (g x) = suppliedTotal x"
  shows "totalsMatch (map (\<lambda>(k, v). (k, g v)) ords) dlog"
  using assms by (auto simp: totalsMatch_def)

lemma totalsMatch_delete: "totalsMatch ords dlog \<Longrightarrow> totalsMatch (AList.delete k ords) dlog"
  by (auto simp: totalsMatch_def dest!: in_delete)

lemma totalsMatch_log:
  "totalsMatch ords dlog \<Longrightarrow> (\<And>k. logSum k dlog' = logSum k dlog) \<Longrightarrow> totalsMatch ords dlog'"
  by (simp add: totalsMatch_def)

lemma in_map_entry_distinct:
  "distinct (keysOf xs) \<Longrightarrow> map_of xs k = Some x \<Longrightarrow>
   (k', v') \<in> set (AList.map_entry k f xs) \<Longrightarrow>
   (k' \<noteq> k \<and> (k', v') \<in> set xs) \<or> (k' = k \<and> v' = f x)"
proof (induction xs)
  case Nil
  then show ?case by simp
next
  case (Cons p xs)
  obtain a b where p: "p = (a, b)" by (cases p)
  show ?case
  proof (cases "a = k")
    case True
    with Cons.prems p show ?thesis
      by (auto simp: image_iff keysOf_def)
  next
    case False
    with Cons p show ?thesis by (auto simp: keysOf_def)
  qed
qed

lemma totalsMatch_shift:
  assumes "distinct (keysOf ords)" "totalsMatch ords dlog" "map_of ords no = Some ord"
    "\<And>k. logSum k dlog' = logSum k dlog + (if k = no then delta else 0)"
    "suppliedTotal (f ord) = suppliedTotal ord + delta"
  shows "totalsMatch (AList.map_entry no f ords) dlog'"
proof -
  have here: "suppliedTotal ord = logSum no dlog"
    using assms(2) map_of_SomeD[OF assms(3)] by (auto simp: totalsMatch_def)
  have "suppliedTotal v = logSum k dlog'" if "(k, v) \<in> set (AList.map_entry no f ords)" for k v
  proof -
    from in_map_entry_distinct[OF assms(1,3) that]
    consider "k \<noteq> no" "(k, v) \<in> set ords" | "k = no" "v = f ord" by blast
    then show ?thesis
    proof cases
      case 1
      with assms(2,4) show ?thesis by (auto simp: totalsMatch_def)
    next
      case 2
      with assms(4,5) here show ?thesis by simp
    qed
  qed
  then show ?thesis by (auto simp: totalsMatch_def)
qed

text \<open>The entries under a change of the order keys.\<close>

lemma entryWf_mono: "entryWf keys e \<Longrightarrow> keys \<subseteq> keys' \<Longrightarrow> entryWf keys' e"
  by (auto simp: entryWf_def split: option.splits)

lemma allVals_mono: "allVals Q xs \<Longrightarrow> (\<And>x. Q x \<Longrightarrow> Q' x) \<Longrightarrow> allVals Q' xs"
  by (auto simp: allVals_def)

lemma logWf_mono:
  assumes "allVals (list_all (entryWf keys)) dlog" "keys \<subseteq> keys'"
  shows "allVals (list_all (entryWf keys')) dlog"
proof (rule allVals_mono[OF assms(1)])
  fix es
  assume "list_all (entryWf keys) es"
  then show "list_all (entryWf keys') es"
    using assms(2) by (induction es) (auto intro: entryWf_mono)
qed

lemma keysOf_map [simp]: "keysOf (map (\<lambda>(k, v). (k, g v)) xs) = keysOf xs"
  by (induction xs) (auto simp: keysOf_def)

lemma keysOf_map_entry [simp]: "keysOf (AList.map_entry k f xs) = keysOf xs"
  by (induction xs) (auto simp: keysOf_def)

lemma keysOf_update: "set (keysOf (AList.update k v xs)) = insert k (set (keysOf xs))"
  using AList.dom_update[of k v xs] by (simp add: keysOf_def)

lemma keysOf_delete: "set (keysOf (AList.delete k xs)) = set (keysOf xs) - {k}"
  by (auto simp: keysOf_def AList.delete_eq)

lemma distinct_keysOf_update: "distinct (keysOf xs) \<Longrightarrow> distinct (keysOf (AList.update k v xs))"
  by (simp add: keysOf_def AList.distinct_update)

lemma distinct_keysOf_delete: "distinct (keysOf xs) \<Longrightarrow> distinct (keysOf (AList.delete k xs))"
  by (simp add: keysOf_def AList.distinct_delete)

lemma keysOf_absent: "map_of xs k = None \<longleftrightarrow> k \<notin> set (keysOf xs)"
  by (simp add: keysOf_def map_of_eq_None_iff)

lemma keysOf_present: "map_of xs k = Some x \<Longrightarrow> k \<in> set (keysOf xs)"
  by (auto simp: keysOf_def dest!: map_of_SomeD intro: rev_image_eqI)

lemma orders_rendered:
  "orders (rendered v r) =
   map (\<lambda>(k, ord). (k, if shown v ord then snd (buildOrderCard v ord r) else ord)) (orders r)"
  by (simp add: rendered_def renderOrders_def)

lemma ledgerSupplied_orders_map:
  assumes "ledgerSupplied r" "\<And>x. suppliedTotal (g x) = suppliedTotal x"
    "orders r' = map (\<lambda>(k, v). (k, g v)) (orders r)" "dailyLog r' = dailyLog r"
  shows "ledgerSupplied r'"
  using assms by (auto simp: ledgerSupplied_def intro!: totalsMatch_map)

lemma ledgerSupplied_orders_map_entry:
  assumes "ledgerSupplied r" "\<And>x. suppliedTotal (f x) = suppliedTotal x"
  shows "ledgerSupplied (r\<lparr>orders := AList.map_entry k f (orders r)\<rparr>)"
  using assms by (auto simp: ledgerSupplied_def intro!: totalsMatch_map_entry)

lemma ledgerSupplied_new_order:
  assumes "ledgerSupplied r" "map_of (orders r) k = None" "suppliedTotal new = 0"
  shows "ledgerSupplied (r\<lparr>orders := AList.update k new (orders r)\<rparr>)"
proof -
  from assms(2) have "k \<notin> set (keysOf (orders r))"
    by (simp add: keysOf_absent)
  with assms(1) have "logSum k (dailyLog r) = 0"
    by (auto simp: ledgerSupplied_def intro: logSum_unreferenced)
  with assms show ?thesis
    by (auto simp: ledgerSupplied_def distinct_keysOf_update keysOf_update
        intro!: totalsMatch_update intro: logWf_mono)
qed

lemma ledgerSupplied_rendered: "ledgerSupplied r \<Longrightarrow> ledgerSupplied (rendered v r)"
  by (rule ledgerSupplied_orders_map[where g = "\<lambda>ord. if shown v ord
        then snd (buildOrderCard v ord r) else ord"])
     (auto simp: orders_rendered buildOrderCard_def Let_def)

lemma ledgerSupplied_createOrder:
  "ledgerSupplied r \<Longrightarrow> ledgerSupplied (snd (createOrder v no plate litres date today r))"
  by (auto simp: createOrder_def Let_def
      intro!: ledgerSupplied_rendered ledgerSupplied_new_order)

lemma ledgerSupplied_allocateFuel:
  "ledgerSupplied r \<Longrightarrow> ledgerSupplied (snd (allocateFuel k t amt r))"
  by (auto simp: allocateFuel_def split: option.splits
      intro!: ledgerSupplied_orders_map_entry)

lemma ledgerSupplied_saveAllocEdit:
  "ledgerSupplied r \<Longrightarrow> ledgerSupplied (snd (saveAllocEdit v k t amt r))"
  by (auto simp: saveAllocEdit_def Let_def split: option.splits
      intro!: ledgerSupplied_rendered ledgerSupplied_orders_map_entry)

lemma ledgerSupplied_saveOrderDate:
  "ledgerSupplied r \<Longrightarrow> ledgerSupplied (snd (saveOrderDate v k date r))"
  by (auto simp: saveOrderDate_def Let_def split: option.splits
      intro!: ledgerSupplied_rendered ledgerSupplied_orders_map_entry)

lemma ledgerSupplied_saveOverageComment:
  "ledgerSupplied r \<Longrightarrow> ledgerSupplied (snd (saveOverageComment v ctx c r))"
  by (auto simp: saveOverageComment_def Let_def split: option.splits
      intro!: ledgerSupplied_rendered ledgerSupplied_orders_map_entry)

lemma ledgerSupplied_confirmClone:
  "ledgerSupplied r \<Longrightarrow> ledgerSupplied (snd (confirmClone v source newNo date today r))"
  by (auto simp: confirmClone_def Let_def split: option.splits
      intro!: ledgerSupplied_rendered ledgerSupplied_new_order)

lemma ledgerSupplied_addTechnician:
  "ledgerSupplied r \<Longrightarrow> ledgerSupplied (snd (addTechnician name plate r))"
  by (auto simp: addTechnician_def Let_def ledgerSupplied_def)

lemma ledgerSupplied_deleteTech:
  "ledgerSupplied r \<Longrightarrow> ledgerSupplied (snd (deleteTech name confirm r))"
  by (auto simp: deleteTech_def
      intro!: ledgerSupplied_orders_map[where g = "\<lambda>ord. ord\<lparr>allocations :=
        AList.delete name (allocations ord)\<rparr>" and r = r])

lemma ledgerSupplied_closeSupplied: "ledgerSupplied r \<Longrightarrow> ledgerSupplied (closeSupplied r)"
  by (rule ledgerSupplied_orders_map[where g = "\<lambda>ord. if suppliedTotal ord \<ge> totalLiters ord
        then ord\<lparr>status := CLOSED\<rparr> else ord"])
     (auto simp: closeSupplied_def)

lemma ledgerSupplied_empty:
  "ledgerSupplied \<lparr>technicians = [], technicianPlates = [], orders = [], dailyLog = []\<rparr>"
  by (simp add: ledgerSupplied_def totalsMatch_def keysOf_def)

lemma ledgerSupplied_renameTechIn:
  assumes "ledgerSupplied r"
  shows "ledgerSupplied (renameTechIn oldName newName r)"
proof (cases "oldName \<in> set (technicians r)")
  case False
  with assms show ?thesis by (simp add: renameTechIn_def)
next
  case True
  let ?g = "map (\<lambda>e. if technician e = oldName then e\<lparr>technician := newName\<rparr> else e)"
  have sums: "logSum k (map (\<lambda>(date, es). (date, ?g es)) (dailyLog r)) = logSum k (dailyLog r)"
    for k
    by (rule logSum_map) (rule amountFor_renamed)
  have wf: "allVals (list_all (entryWf keys)) (map (\<lambda>(date, es). (date, ?g es)) (dailyLog r))"
    if "allVals (list_all (entryWf keys)) (dailyLog r)" for keys
    using that
    by (rule allVals_map) (auto simp: list_all_iff entryWf_def split: option.splits)
  from assms have "totalsMatch (map (\<lambda>(k, ord). (k, ord\<lparr>allocations := moveKey oldName newName (allocations ord),
      overageComments := moveKey oldName newName (overageComments ord)\<rparr>)) (orders r))
    (map (\<lambda>(date, es). (date, ?g es)) (dailyLog r))"
    by (auto simp: ledgerSupplied_def intro!: totalsMatch_map totalsMatch_log[OF _ sums])
  with assms True wf show ?thesis
    by (simp add: renameTechIn_def ledgerSupplied_def)
qed

lemma ledgerSupplied_deleteOrder:
  assumes "ledgerSupplied r"
  shows "ledgerSupplied (snd (deleteOrder v no confirm r))"
proof -
  let ?g = "filter (\<lambda>e. entryOrderNo e \<noteq> Some no)"
  let ?log = "map (\<lambda>(date, es). (date, ?g es)) (dailyLog r)"
  have sums: "logSum k ?log = logSum k (dailyLog r)" if "k \<noteq> no" for k
    by (rule logSum_map) (rule amountFor_filter_other[OF that])
  have "totalsMatch (AList.delete no (orders r)) ?log"
    using assms sums by (auto simp: ledgerSupplied_def totalsMatch_def dest!: in_delete)
  moreover have "allVals (list_all (entryWf (set (keysOf (AList.delete no (orders r)))))) ?log"
  proof -
    have "list_all (entryWf (set (keysOf (AList.delete no (orders r))))) (?g es)"
      if "list_all (entryWf (set (keysOf (orders r)))) es" for es
      using that
      by (auto simp: list_all_iff entryWf_def keysOf_delete split: option.splits)
    with assms show ?thesis
      by (auto simp: ledgerSupplied_def elim!: allVals_map)
  qed
  ultimately have "ledgerSupplied (r\<lparr>orders := AList.delete no (orders r), dailyLog := ?log\<rparr>)"
    using assms by (simp add: ledgerSupplied_def distinct_keysOf_delete)
  with assms show ?thesis
    by (auto simp: deleteOrder_def split: option.splits intro!: ledgerSupplied_rendered)
qed

text \<open>The three operations that write the log and an order together.\<close>

lemma ledgerSupplied_booked:
  assumes "ledgerSupplied r" "map_of (orders r) no = Some ord"
    "orders r' = AList.map_entry no f (orders r)"
    "suppliedTotal (f ord) = suppliedTotal ord + delta"
    "\<And>k. logSum k (dailyLog r') = logSum k (dailyLog r) + (if k = no then delta else 0)"
    "distinct (keysOf (dailyLog r'))"
    "allVals (list_all (entryWf (set (keysOf (orders r))))) (dailyLog r')"
  shows "ledgerSupplied r'"
proof -
  have "totalsMatch (AList.map_entry no f (orders r)) (dailyLog r')"
    using assms(1,2,4,5) by (intro totalsMatch_shift) (auto simp: ledgerSupplied_def)
  with assms show ?thesis
    by (simp add: ledgerSupplied_def)
qed

lemma ledgerSupplied_unbooked:
  assumes "ledgerSupplied r" "orders r' = orders r"
    "\<And>k. logSum k (dailyLog r') = logSum k (dailyLog r)"
    "distinct (keysOf (dailyLog r'))"
    "allVals (list_all (entryWf (set (keysOf (orders r))))) (dailyLog r')"
  shows "ledgerSupplied r'"
  using assms by (auto simp: ledgerSupplied_def intro: totalsMatch_log)

lemma bookedOrder_wf:
  "entryWf keys e \<Longrightarrow> bookedOrder e = entryOrderNo e"
  by (auto simp: entryWf_def bookedOrder_def split: option.splits)

lemma logSum_push:
  "map_of dlog d = Some es \<Longrightarrow>
   logSum k (AList.map_entry d (\<lambda>es. es @ [e]) dlog) = logSum k dlog + contrib k e"
  by (simp add: logSum_map_entry)

lemma logWf_push:
  assumes "allVals (list_all (entryWf keys)) dlog" "entryWf keys e"
  shows "allVals (list_all (entryWf keys)) (AList.map_entry d (\<lambda>es. es @ [e]) dlog)"
  using assms by (auto intro!: allVals_map_entry)

lemma batchInv_saveCard:
  assumes "batchInv d r" "capOk c"
  shows "batchInv d (fst (saveCard d (r, saved, skipped) c))"
proof -
  from assms(1) have "map_of (dailyLog r) d \<noteq> None"
    by (simp add: batchInv_def keysOf_absent)
  then obtain es where es: "map_of (dailyLog r) d = Some es"
    by auto
  from assms(1) have L: "ledgerSupplied r" by (simp add: batchInv_def)
  then have W: "allVals (list_all (entryWf (set (keysOf (orders r))))) (dailyLog r)"
    and D: "distinct (keysOf (dailyLog r))"
    by (simp_all add: ledgerSupplied_def)
  have unalloc: "batchInv d (pushEntry d \<lparr>entryOrderNo = None, technician = t,
        supplied = suppInput c, comment = cm, unallocated = True\<rparr> r)"
    if "0 < suppInput c" for t cm
  proof -
    let ?e = "\<lparr>entryOrderNo = None, technician = t,
        supplied = suppInput c, comment = cm, unallocated = True\<rparr>"
    have "ledgerSupplied (pushEntry d ?e r)"
    proof (rule ledgerSupplied_unbooked[OF L])
      show "orders (pushEntry d ?e r) = orders r" by (simp add: pushEntry_def)
      show "logSum k (dailyLog (pushEntry d ?e r)) = logSum k (dailyLog r)" for k
        by (simp add: pushEntry_def logSum_push[OF es] contrib_def)
      show "distinct (keysOf (dailyLog (pushEntry d ?e r)))"
        using D by (simp add: pushEntry_def)
      show "allVals (list_all (entryWf (set (keysOf (orders r))))) (dailyLog (pushEntry d ?e r))"
        using W that by (auto simp: pushEntry_def entryWf_def intro!: logWf_push)
    qed
    with assms(1) show ?thesis
      by (simp add: batchInv_def pushEntry_def)
  qed
  have alloc: "batchInv d (pushEntry d \<lparr>entryOrderNo = Some no, technician = t,
        supplied = actualAmount c, comment = None, unallocated = False\<rparr>
        (r\<lparr>orders := AList.map_entry no
            (\<lambda>x. x\<lparr>suppliedTotal := suppliedTotal x + actualAmount c\<rparr>) (orders r)\<rparr>))"
    (is "batchInv d ?r'")
    if "0 < suppInput c" "no \<noteq> []" "map_of (orders r) no = Some ord" for t no ord
  proof -
    let ?e = "\<lparr>entryOrderNo = Some no, technician = t,
        supplied = actualAmount c, comment = None, unallocated = False\<rparr>"
    have pos: "0 < actualAmount c"
      using assms(2) that(1) by (rule actualAmount_pos)
    have "ledgerSupplied ?r'"
    proof (rule ledgerSupplied_booked[OF L that(3), where delta = "actualAmount c"
          and f = "\<lambda>x. x\<lparr>suppliedTotal := suppliedTotal x + actualAmount c\<rparr>"])
      show "orders ?r' = AList.map_entry no
          (\<lambda>x. x\<lparr>suppliedTotal := suppliedTotal x + actualAmount c\<rparr>) (orders r)"
        by (simp add: pushEntry_def)
      show "suppliedTotal (ord\<lparr>suppliedTotal := suppliedTotal ord + actualAmount c\<rparr>) =
          suppliedTotal ord + actualAmount c" by simp
      show "logSum k (dailyLog ?r') =
          logSum k (dailyLog r) + (if k = no then actualAmount c else 0)" for k
        by (simp add: pushEntry_def logSum_push[OF es] contrib_def)
      show "distinct (keysOf (dailyLog ?r'))"
        using D by (simp add: pushEntry_def)
      show "allVals (list_all (entryWf (set (keysOf (orders r))))) (dailyLog ?r')"
        using W pos that(2) keysOf_present[OF that(3)]
        by (auto simp: pushEntry_def entryWf_def intro!: logWf_push)
    qed
    with assms(1) show ?thesis
      by (simp add: batchInv_def pushEntry_def)
  qed
  from assms(1) unalloc alloc show ?thesis
    by (auto simp: saveCard_def Let_def split: option.splits)
qed

lemma batchInv_foldl:
  "batchInv d (fst acc) \<Longrightarrow> \<forall>c \<in> set cards. capOk c \<Longrightarrow>
   batchInv d (fst (foldl (saveCard d) acc cards))"
proof (induction cards arbitrary: acc)
  case Nil
  then show ?case by simp
next
  case (Cons c cards)
  obtain r saved skipped where acc: "acc = (r, saved, skipped)" by (cases acc)
  show ?case
    using Cons.prems by (auto simp: acc intro!: Cons.IH batchInv_saveCard)
qed

lemma ledgerSupplied_saveDaily:
  assumes "ledgerSupplied r" "\<forall>c \<in> set cards. capOk c"
  shows "ledgerSupplied (snd (saveDaily v d cards r))"
proof -
  define r0 where "r0 = (if map_of (dailyLog r) d = None
                  then r\<lparr>dailyLog := AList.update d [] (dailyLog r)\<rparr> else r)"
  have r0: "batchInv d r0"
  proof (cases "map_of (dailyLog r) d")
    case None
    have "ledgerSupplied (r\<lparr>dailyLog := AList.update d [] (dailyLog r)\<rparr>)"
    proof (rule ledgerSupplied_unbooked[OF assms(1)])
      show "logSum k (dailyLog (r\<lparr>dailyLog := AList.update d [] (dailyLog r)\<rparr>)) =
          logSum k (dailyLog r)" for k
        by (simp add: logSum_update_absent[OF None] amountFor_def)
      show "distinct (keysOf (dailyLog (r\<lparr>dailyLog := AList.update d [] (dailyLog r)\<rparr>)))"
        using assms(1) by (simp add: ledgerSupplied_def distinct_keysOf_update)
      show "allVals (list_all (entryWf (set (keysOf (orders r)))))
          (dailyLog (r\<lparr>dailyLog := AList.update d [] (dailyLog r)\<rparr>))"
        using assms(1) by (auto simp: ledgerSupplied_def intro!: allVals_update)
    qed simp
    with None show ?thesis
      by (simp add: r0_def batchInv_def keysOf_update)
  next
    case (Some es)
    with assms(1) show ?thesis
      by (simp add: r0_def batchInv_def keysOf_present)
  qed
  then have r0': "ledgerSupplied r0" by (simp add: batchInv_def)
  from r0 have "batchInv d (fst (foldl (saveCard d) (r0, 0, 0) cards))"
    using assms(2) by (intro batchInv_foldl) simp_all
  then have "ledgerSupplied (rendered v (closeSupplied (fst (foldl (saveCard d) (r0, 0, 0) cards))))"
    by (intro ledgerSupplied_rendered ledgerSupplied_closeSupplied) (simp add: batchInv_def)
  then show ?thesis
    using assms(1) r0'
    by (auto simp: saveDaily_def Let_def r0_def[symmetric] split: prod.splits)
qed

lemma suppliedTotal_resupply:
  "suppliedTotal (resupply diff x) = max 0 (suppliedTotal x + diff)"
  by (simp add: resupply_def Let_def)

lemma suppliedTotal_unsupply:
  "suppliedTotal (unsupply amount x) = max 0 (suppliedTotal x - amount)"
  by (simp add: unsupply_def Let_def)

lemma logWf_lookup:
  "allVals (list_all (entryWf keys)) dlog \<Longrightarrow> map_of dlog d = Some es \<Longrightarrow>
   list_all (entryWf keys) es"
  by (rule allVals_lookup)

lemma orders_present:
  "k \<in> set (keysOf xs) \<Longrightarrow> \<exists>x. map_of xs k = Some x"
  using keysOf_absent[of xs k] by auto

text \<open>A log in which an entry of a date was changed or removed, seen from an order.\<close>

lemma totalsMatch_lookup:
  "totalsMatch ords dlog \<Longrightarrow> map_of ords k = Some x \<Longrightarrow> suppliedTotal x = logSum k dlog"
  by (auto simp: totalsMatch_def dest!: map_of_SomeD)

lemma ledgerSupplied_entry_changed:
  assumes L: "ledgerSupplied r"
    and e: "map_of (dailyLog r) date = Some entries" "idx < length entries"
    and sums: "\<And>k. logSum k dlog' = logSum k (dailyLog r) + (if entryOrderNo (entries ! idx) = Some k then delta else 0)"
    and D: "distinct (keysOf dlog')"
    and W: "allVals (list_all (entryWf (set (keysOf (orders r))))) dlog'"
    and f: "\<And>x. suppliedTotal (f x) = max 0 (suppliedTotal x + delta)"
    and r': "orders r' = (case bookedOrder (entries ! idx) of None \<Rightarrow> orders r
                          | Some no \<Rightarrow> AList.map_entry no f (orders r))"
      "dailyLog r' = dlog'"
  shows "ledgerSupplied r'"
proof -
  from L have W0: "allVals (list_all (entryWf (set (keysOf (orders r))))) (dailyLog r)"
    by (simp add: ledgerSupplied_def)
  have "list_all (entryWf (set (keysOf (orders r)))) entries"
    by (rule logWf_lookup[OF W0 e(1)])
  then have wf: "entryWf (set (keysOf (orders r))) (entries ! idx)"
    using e(2) by (simp only: list_all_length)
  then have b: "bookedOrder (entries ! idx) = entryOrderNo (entries ! idx)"
    by (rule bookedOrder_wf)
  have D': "distinct (keysOf (dailyLog r'))"
    by (simp only: r'(2) D)
  have W': "allVals (list_all (entryWf (set (keysOf (orders r))))) (dailyLog r')"
    by (simp only: r'(2) W)
  show ?thesis
  proof (cases "entryOrderNo (entries ! idx)")
    case None
    have o: "orders r' = orders r"
      by (simp only: r'(1) b None option.case)
    have s: "logSum k (dailyLog r') = logSum k (dailyLog r)" for k
      unfolding r'(2) sums[of k] None by simp
    show ?thesis
      by (rule ledgerSupplied_unbooked[OF L o s D' W'])
  next
    case (Some no)
    from wf have "no \<in> set (keysOf (orders r))"
      unfolding entryWf_def Some by simp
    then have "\<exists>x. map_of (orders r) no = Some x"
      by (rule orders_present)
    then obtain ord where ord: "map_of (orders r) no = Some ord" ..
    from L have "totalsMatch (orders r) (dailyLog r)"
      by (simp add: ledgerSupplied_def)
    then have st0: "suppliedTotal ord = logSum no (dailyLog r)"
      using ord by (rule totalsMatch_lookup)
    have nn: "0 \<le> logSum no dlog'"
      using W by (rule logSum_nonneg)
    have "logSum no dlog' = logSum no (dailyLog r) + delta"
      unfolding sums[of no] Some by simp
    with nn st0 have "0 \<le> suppliedTotal ord + delta" by linarith
    then have st: "suppliedTotal (f ord) = suppliedTotal ord + delta"
      unfolding f by linarith
    have o: "orders r' = AList.map_entry no f (orders r)"
      by (simp only: r'(1) b Some option.case)
    have s: "logSum k (dailyLog r') = logSum k (dailyLog r) + (if k = no then delta else 0)"
      for k
      unfolding r'(2) sums[of k] Some by auto
    show ?thesis
      by (rule ledgerSupplied_booked[OF L ord o st s D' W'])
  qed
qed

lemma ledgerSupplied_applyEdit:
  assumes L: "ledgerSupplied r"
    and e: "map_of (dailyLog r) date = Some entries" "idx < length entries"
    and new: "0 < newSupply"
  shows "ledgerSupplied (applyEdit date idx entries newSupply newComment r)"
proof -
  let ?e = "entries ! idx"
  let ?e' = "editedEntry ?e newSupply newComment"
  let ?dlog = "AList.update date (entries[idx := ?e']) (dailyLog r)"
  from L have W0: "allVals (list_all (entryWf (set (keysOf (orders r))))) (dailyLog r)"
    by (simp add: ledgerSupplied_def)
  have wf: "list_all (entryWf (set (keysOf (orders r)))) entries"
    by (rule logWf_lookup[OF W0 e(1)])
  then have "entryWf (set (keysOf (orders r))) ?e"
    using e(2) by (simp add: list_all_length)
  with new have wf': "entryWf (set (keysOf (orders r))) ?e'"
    by (auto simp: entryWf_def editedEntry_def split: option.splits)
  show ?thesis
  proof (rule ledgerSupplied_entry_changed[OF L e, where
        delta = "newSupply - supplied ?e" and f = "resupply (newSupply - supplied ?e)" and
        dlog' = ?dlog])
    show "logSum k ?dlog = logSum k (dailyLog r) +
        (if entryOrderNo ?e = Some k then newSupply - supplied ?e else 0)" for k
      by (auto simp: logSum_update_present[OF e(1)] amountFor_list_update[OF e(2)]
          contrib_def editedEntry_def)
    show "distinct (keysOf ?dlog)"
      using L by (simp add: ledgerSupplied_def distinct_keysOf_update)
    show "allVals (list_all (entryWf (set (keysOf (orders r))))) ?dlog"
      using W0 wf wf'
      by (auto simp: list_all_iff intro!: allVals_update
          dest!: set_update_subset_insert[THEN subsetD])
    show "suppliedTotal (resupply (newSupply - supplied ?e) x) =
        max 0 (suppliedTotal x + (newSupply - supplied ?e))" for x
      by (rule suppliedTotal_resupply)
    show "orders (applyEdit date idx entries newSupply newComment r) =
        (case bookedOrder ?e of None \<Rightarrow> orders r
         | Some no \<Rightarrow> AList.map_entry no (resupply (newSupply - supplied ?e)) (orders r))"
      by (simp add: applyEdit_def Let_def split: option.splits)
    show "dailyLog (applyEdit date idx entries newSupply newComment r) = ?dlog"
      by (simp add: applyEdit_def Let_def split: option.splits)
  qed
qed

lemma ledgerSupplied_saveEditEntry:
  "ledgerSupplied r \<Longrightarrow> ledgerSupplied (snd (saveEditEntry v ctx newSupply c r))"
  by (auto simp: saveEditEntry_def Let_def split: option.splits
      intro!: ledgerSupplied_rendered ledgerSupplied_applyEdit)

lemma amountFor_whole:
  "idx < length es \<Longrightarrow> amountFor no es = amountFor no (splice1 idx es) + contrib no (es ! idx)"
  by (simp add: amountFor_splice1)

lemma ledgerSupplied_applyDelete:
  assumes L: "ledgerSupplied r"
    and e: "map_of (dailyLog r) date = Some entries" "idx < length entries"
  shows "ledgerSupplied (applyDelete date idx entries r)"
proof -
  let ?e = "entries ! idx"
  let ?rest = "splice1 idx entries"
  let ?dlog = "if ?rest = [] then AList.delete date (dailyLog r)
               else AList.update date ?rest (dailyLog r)"
  from L have W0: "allVals (list_all (entryWf (set (keysOf (orders r))))) (dailyLog r)"
    and D0: "distinct (keysOf (dailyLog r))"
    by (simp_all add: ledgerSupplied_def)
  have wf: "list_all (entryWf (set (keysOf (orders r)))) entries"
    by (rule logWf_lookup[OF W0 e(1)])
  then have wf': "list_all (entryWf (set (keysOf (orders r)))) ?rest"
    by (auto simp: list_all_iff splice1_def dest: in_set_takeD in_set_dropD)
  show ?thesis
  proof (rule ledgerSupplied_entry_changed[OF L e, where
        delta = "- supplied ?e" and f = "unsupply (supplied ?e)" and dlog' = ?dlog])
    show "logSum k ?dlog = logSum k (dailyLog r) +
        (if entryOrderNo ?e = Some k then - supplied ?e else 0)" for k
    proof (cases "?rest = []")
      case True
      then have "amountFor k entries = contrib k ?e"
        using amountFor_whole[OF e(2), of k] by simp
      with True show ?thesis
        by (simp add: logSum_delete[OF D0 e(1)] contrib_def)
    next
      case False
      then show ?thesis
        by (simp add: logSum_update_present[OF e(1)] amountFor_splice1[OF e(2)] contrib_def)
    qed
    show "distinct (keysOf ?dlog)"
      using D0 by (simp add: distinct_keysOf_update distinct_keysOf_delete)
    show "allVals (list_all (entryWf (set (keysOf (orders r))))) ?dlog"
      using W0 wf' by (auto intro!: allVals_update allVals_delete)
    show "suppliedTotal (unsupply (supplied ?e) x) = max 0 (suppliedTotal x + - supplied ?e)"
      for x
      by (simp add: suppliedTotal_unsupply)
    show "orders (applyDelete date idx entries r) =
        (case bookedOrder ?e of None \<Rightarrow> orders r
         | Some no \<Rightarrow> AList.map_entry no (unsupply (supplied ?e)) (orders r))"
      by (simp add: applyDelete_def Let_def split: option.splits)
    show "dailyLog (applyDelete date idx entries r) = ?dlog"
      by (simp add: applyDelete_def Let_def split: option.splits)
  qed
qed

lemma ledgerSupplied_deleteDailyEntry:
  "ledgerSupplied r \<Longrightarrow> ledgerSupplied (snd (deleteDailyEntry v date idx confirm r))"
  by (auto simp: deleteDailyEntry_def Let_def split: option.splits
      intro!: ledgerSupplied_rendered ledgerSupplied_applyDelete)

lemma ledgerSupplied_exec:
  assumes "everyRegion ledgerSupplied db" "\<not> isRestore cmd"
    "\<forall>c \<in> set (batchCards cmd). capOk c"
  shows "everyRegion ledgerSupplied (snd (exec v cmd db))"
  using assms
  by (cases cmd)
    (simp_all add: everyRegion_onCurrent everyRegion_changeRegion everyRegion_addRegion
      everyRegion_deleteRegion everyRegion_confirmRename
      ledgerSupplied_createOrder ledgerSupplied_allocateFuel ledgerSupplied_saveAllocEdit
      ledgerSupplied_saveOrderDate ledgerSupplied_saveOverageComment
      ledgerSupplied_confirmClone ledgerSupplied_deleteOrder ledgerSupplied_saveDaily
      ledgerSupplied_saveEditEntry ledgerSupplied_deleteDailyEntry
      ledgerSupplied_addTechnician ledgerSupplied_deleteTech ledgerSupplied_renameTechIn
      ledgerSupplied_empty)

lemma suppliedInv_ledgerSupplied: "everyRegion ledgerSupplied db \<Longrightarrow> suppliedInv db"
  by (auto simp: everyRegion_def ledgerSupplied_def suppliedInv_def totalsMatch_def
      suppliedOn_logSum)

text \<open>
  C2 (as amended). On a store in which, in every region, order numbers and dates are keys
  without repetition, the supplied total of every order is the sum of the daily entries that
  name it, and every entry has a positive amount and either names no order or is not flagged
  unallocated and names, by a number that is not empty, an order that exists, after every
  operation other than restore the supplied total of every order of every region is the sum
  of the supplied litres of the daily entries of that region, over all dates, that name the
  order, provided that all the litres, those of the store before and after the operation and
  those that the operation brings in, are whole numbers below \<open>2 ^ 53\<close>, that the caps on the
  cards of a daily batch are not negative, and that no name that the operation looks up is
  the name of a member of \<open>Object.prototype\<close>. On these numbers the sums and differences
  that \<open>saveDaily\<close>, \<open>saveEditEntry\<close> and \<open>deleteDailyEntry\<close> form are exact; with fractions
  of a litre they are rounded and the cached total drifts from the sum of the entries.
\<close>

theorem supplied_total_is_sum_of_entries:
  assumes "everyRegion ledgerSupplied db" "\<not> isRestore cmd"
    "\<forall>c \<in> set (batchCards cmd). capOk c"
    "everyRegion litresSafe db" "\<forall>x \<in> set (litresRead cmd). safeInteger x"
    "everyRegion litresSafe (snd (exec v cmd db))"
    "\<forall>k \<in> set (namesRead cmd). \<not> inherited k"
  shows "suppliedInv (snd (exec v cmd db))"
  using assms(1-3) by (intro suppliedInv_ledgerSupplied ledgerSupplied_exec)

theorem supplied_total_is_sum_of_entries_witness:
  "everyRegion ledgerSupplied storeOne \<and> \<not> isRestore (DeleteDailyEntry ''2025-01-02'' 0 True) \<and>
   batchCards (DeleteDailyEntry ''2025-01-02'' 0 True) = [] \<and>
   everyRegion litresSafe storeOne \<and>
   litresRead (DeleteDailyEntry ''2025-01-02'' 0 True) = [] \<and>
   everyRegion litresSafe (snd (exec plainView (DeleteDailyEntry ''2025-01-02'' 0 True) storeOne)) \<and>
   namesRead (DeleteDailyEntry ''2025-01-02'' 0 True) = [''2025-01-02''] \<and>
   \<not> inherited ''2025-01-02'' \<and>
   fst (exec plainView (DeleteDailyEntry ''2025-01-02'' 0 True) storeOne) = Done \<and>
   suppliedInv (snd (exec plainView (DeleteDailyEntry ''2025-01-02'' 0 True) storeOne))"
proof -
  have h: "everyRegion ledgerSupplied storeOne"
    by (simp add: everyRegion_def ledgerSupplied_def totalsMatch_def logSum_def contrib_def
        allVals_def entryWf_def keysOf_def storeOne_def regionOne_def orderO1_def entryA_def)
  have d: "fst (exec plainView (DeleteDailyEntry ''2025-01-02'' 0 True) storeOne) = Done"
    by (simp add: onCurrent_def deleteDailyEntry_def Let_def storeOne_def regionOne_def
        split: prod.splits)
  have s: "everyRegion litresSafe storeOne"
    by (simp add: everyRegion_def litresSafe_def safeInteger_def allVals_def storeOne_def
        regionOne_def orderO1_def entryA_def)
  have s': "everyRegion litresSafe
      (snd (exec plainView (DeleteDailyEntry ''2025-01-02'' 0 True) storeOne))"
    by (simp add: everyRegion_def litresSafe_def safeInteger_def allVals_def storeOne_def
        regionOne_def orderO1_def entryA_def onCurrent_def deleteDailyEntry_def applyDelete_def
        bookedOrder_def unsupply_def splice1_def plainView_def rendered_def renderOrders_def
        shown_def buildOrderCard_def Let_def)
  have n: "\<not> inherited ''2025-01-02''"
    by (simp add: inherited_def)
  from supplied_total_is_sum_of_entries[OF h _ _ s _ s'] h d s s' n
  show ?thesis by simp
qed

text \<open>
  C2 (as stated) fails at restore, which installs the document as it is: a backup whose order
  carries 60 supplied litres and whose daily log is empty passes the format test and leaves a
  store in which the supplied total of the order is not the sum of its entries.
\<close>

theorem restore_installs_unmatched_total:
  "suppliedInv DB_DEFAULT \<and>
   fst (exec plainView (RestoreData (Some staleBackup) True) DB_DEFAULT) = Done \<and>
   \<not> suppliedInv (snd (exec plainView (RestoreData (Some staleBackup) True) DB_DEFAULT))"
  by (simp add: suppliedInv_def suppliedOn_def allEntries_def restoreData_def
      staleBackup_def DB_DEFAULT_def regionOne_def orderO1_def)

end
